theory Spec2Isabelle
  imports Main "HOL-Library.AList"
begin

section \<open>The environment of \<open>convert_to_dds.py\<close>\<close>

text \<open>
  The script touches the world through \<open>pathlib\<close> (\<open>mkdir\<close>, \<open>glob\<close>, \<open>exists\<close>,
  \<open>stem\<close>), \<open>subprocess.run\<close>, \<open>shutil.copy2\<close> and \<open>print\<close>. The model keeps a
  filesystem, the log of tool invocations and the printed text in one state record.

  A directory path (the \<open>svg_dir\<close>, \<open>png_dir\<close>, \<open>dds_dir\<close>, \<open>mod_dir\<close> arguments) is the
  string \<open>str(path)\<close>; it names either nothing or a directory, whose entries are listed
  with their names. A file path is the pair of its directory and its name. An entry is
  a regular file (content and the \<open>stat\<close> metadata that \<open>copy2\<close> carries over) or a
  subdirectory with entries of its own. Directory paths with different strings are
  different directories, none inside another.
\<close>

type_synonym bytes = "nat list"
type_synonym metadata = nat

datatype node = File bytes metadata | Dir "(string \<times> node) list"

type_synonym directory = "(string \<times> node) list"
type_synonym filesystem = "string \<Rightarrow> directory option"
type_synonym path = "string \<times> string"

text \<open>The exceptions (all subclasses of \<open>Exception\<close>) that the modelled calls raise.\<close>

datatype exn = FileNotFoundError | IsADirectoryError | SameFileError | OtherError string

fun str_exn :: "exn \<Rightarrow> string" where
  "str_exn FileNotFoundError = ''[Errno 2] No such file or directory''"
| "str_exn IsADirectoryError = ''[Errno 21] Is a directory''"
| "str_exn SameFileError = ''source and destination are the same file''"
| "str_exn (OtherError msg) = msg"

text \<open>
  An argument of a command line: a literal, or \<open>str\<close> of a directory or file path.
\<close>

datatype arg = Lit string | StrDir string | StrFile path

text \<open>
  What one \<open>subprocess.run(..., capture_output=True, text=True)\<close> does: the process
  completes with a return code and its captured standard error, or the call raises.
\<close>

datatype outcome = Completed int string | Raised exn

record invocation =
  argv :: "arg list"
  result :: outcome
  written :: "(bytes \<times> metadata) option"

text \<open>
  The external tools are opaque. A tool is any function that, from the invocations so
  far, the filesystem and its command line, decides the outcome of the call and whether
  it writes its output file, with which content.
\<close>

type_synonym tool =
  "invocation list \<Rightarrow> filesystem \<Rightarrow> arg list \<Rightarrow> outcome \<times> (bytes \<times> metadata) option"

record state =
  fs :: filesystem
  log :: "invocation list"
  stdout :: "string list"

definition print :: "string \<Rightarrow> state \<Rightarrow> state" where
  "print s st = st\<lparr>stdout := stdout st @ [s]\<rparr>"

text \<open>\<open>Path.mkdir(parents=True, exist_ok=True)\<close>: creates the directory when it is absent.\<close>

definition mkdir :: "string \<Rightarrow> state \<Rightarrow> state" where
  "mkdir d st = (case fs st d of None \<Rightarrow> st\<lparr>fs := (fs st)(d \<mapsto> [])\<rparr> | Some _ \<Rightarrow> st)"

definition lookup :: "filesystem \<Rightarrow> path \<Rightarrow> node option" where
  "lookup f p = (case f (fst p) of None \<Rightarrow> None | Some es \<Rightarrow> map_of es (snd p))"

text \<open>\<open>Path.exists()\<close>.\<close>

definition exists :: "filesystem \<Rightarrow> path \<Rightarrow> bool" where
  "exists f p = (lookup f p \<noteq> None)"

definition ends_with :: "string \<Rightarrow> string \<Rightarrow> bool" where
  "ends_with ext name =
     (length ext \<le> length name \<and> drop (length name - length ext) name = ext)"

text \<open>
  \<open>d.glob("*" + ext)\<close>: the names in directory \<open>d\<close> that end with \<open>ext\<close>, files and
  subdirectories alike, each once, in the order of the listing; nothing when \<open>d\<close> is
  not a directory. (\<open>pathlib\<close> does not hide names that start with a dot; the
  match is on the exact characters, as on a case-sensitive filesystem.)
\<close>

definition glob :: "filesystem \<Rightarrow> string \<Rightarrow> string \<Rightarrow> string list" where
  "glob f d ext =
     (case f d of None \<Rightarrow> [] | Some es \<Rightarrow> filter (ends_with ext) (remdups (map fst es)))"

text \<open>
  \<open>PurePath.stem\<close>: with \<open>i = name.rfind('.')\<close>, the stem is \<open>name[:i]\<close> when
  \<open>0 < i < len(name) - 1\<close> and the whole name otherwise.
\<close>

definition rfind_dot :: "string \<Rightarrow> nat option" where
  "rfind_dot name =
     (if CHR ''.'' \<in> set name
      then Some (length name - 1 - length (takeWhile (\<lambda>c. c \<noteq> CHR ''.'') (rev name)))
      else None)"

definition stem :: "string \<Rightarrow> string" where
  "stem name =
     (case rfind_dot name of
        None \<Rightarrow> name
      | Some i \<Rightarrow> if 0 < i \<and> i < length name - 1 then take i name else name)"

text \<open>\<open>str(n)\<close> of a count, as the f-strings render it.\<close>

function str_nat :: "nat \<Rightarrow> string" where
  "str_nat n =
     (if n < 10 then [char_of (48 + n)]
      else str_nat (n div 10) @ [char_of (48 + n mod 10)])"
  by pat_completeness auto
termination
  by (relation "measure id") auto

declare str_nat.simps [simp del]

subsection \<open>Running a tool\<close>

text \<open>
  The file a command line asks the tool to produce: the last argument of the
  ImageMagick call, and for \<open>texconv -o dir src\<close> the file in \<open>dir\<close> named after the
  stem of \<open>src\<close>.
\<close>

fun target :: "arg list \<Rightarrow> path option" where
  "target [Lit prog, Lit a, Lit b, StrFile src, StrFile dst] = Some dst"
| "target [Lit prog, Lit a, Lit b, Lit c, Lit d, StrDir outdir, StrFile src] =
     Some (outdir, stem (snd src) @ ''.dds'')"
| "target _ = None"

definition put :: "path \<Rightarrow> node \<Rightarrow> filesystem \<Rightarrow> filesystem" where
  "put p v f =
     (case f (fst p) of
        None \<Rightarrow> f
      | Some es \<Rightarrow> f(fst p \<mapsto> AList.update (snd p) v es))"

text \<open>
  A tool creates or overwrites a regular file in an existing directory; it cannot
  replace a subdirectory, and it removes nothing.
\<close>

definition write_file :: "path \<Rightarrow> bytes \<times> metadata \<Rightarrow> filesystem \<Rightarrow> filesystem" where
  "write_file p c f =
     (case lookup f p of
        Some (Dir _) \<Rightarrow> f
      | _ \<Rightarrow> put p (File (fst c) (snd c)) f)"

definition subprocess_run ::
  "tool \<Rightarrow> arg list \<Rightarrow> state \<Rightarrow> (exn + int \<times> string) \<times> state" where
  "subprocess_run env args st =
     (let (res, w) = env (log st) (fs st) args;
          f' = (case (w, target args) of
                  (Some c, Some p) \<Rightarrow> write_file p c (fs st)
                | _ \<Rightarrow> fs st);
          st' = st\<lparr>fs := f', log := log st @ [\<lparr>argv = args, result = res, written = w\<rparr>]\<rparr>
      in (case res of Completed rc err \<Rightarrow> Inr (rc, err) | Raised e \<Rightarrow> Inl e, st'))"

subsection \<open>\<open>shutil.copy2\<close>\<close>

text \<open>
  \<open>copy2(src, dst)\<close>: when \<open>dst\<close> is a directory the file goes inside it under the
  name of \<open>src\<close>; copying a file onto itself raises \<open>SameFileError\<close>; opening a
  directory as the source, or as the destination file, raises \<open>IsADirectoryError\<close>
  (\<open>PermissionError\<close> on Windows; an \<open>OSError\<close> either way).
  Content and metadata are carried over, and an existing destination file is replaced.
\<close>

definition copy2 :: "path \<Rightarrow> path \<Rightarrow> state \<Rightarrow> (exn + unit) \<times> state" where
  "copy2 src dst st =
     (case lookup (fs st) dst of
        Some (Dir inner) \<Rightarrow>
          (case lookup (fs st) src of
             None \<Rightarrow> (Inl FileNotFoundError, st)
           | Some (Dir _) \<Rightarrow> (Inl IsADirectoryError, st)
           | Some (File b m) \<Rightarrow>
               (case map_of inner (snd src) of
                  Some (Dir _) \<Rightarrow> (Inl IsADirectoryError, st)
                | _ \<Rightarrow>
                    (Inr (), st\<lparr>fs := put dst
                       (Dir (AList.update (snd src) (File b m) inner)) (fs st)\<rparr>)))
      | _ \<Rightarrow>
          if src = dst \<and> exists (fs st) src then (Inl SameFileError, st)
          else
            (case lookup (fs st) src of
               None \<Rightarrow> (Inl FileNotFoundError, st)
             | Some (Dir _) \<Rightarrow> (Inl IsADirectoryError, st)
             | Some (File b m) \<Rightarrow>
                 if fs st (fst dst) = None then (Inl FileNotFoundError, st)
                 else (Inr (), st\<lparr>fs := put dst (File b m) (fs st)\<rparr>)))"

section \<open>The three stages\<close>

definition magick_exe :: string where
  "magick_exe = ''C:'' @ [char_of (92::nat)] @ ''Program Files'' @ [char_of (92::nat)]
     @ ''ImageMagick-7.1.2-Q16'' @ [char_of (92::nat)] @ ''magick.exe''"

text \<open>The two command lines, as the script builds them.\<close>

definition magick_cmd :: "path \<Rightarrow> path \<Rightarrow> arg list" where
  "magick_cmd svg_path png_path =
     [Lit magick_exe, Lit ''-background'', Lit ''none'', StrFile svg_path, StrFile png_path]"

definition texconv_cmd :: "string \<Rightarrow> path \<Rightarrow> arg list" where
  "texconv_cmd dds_dir png_path =
     [Lit ''texconv'', Lit ''-f'', Lit ''BC7_UNORM'', Lit ''-y'', Lit ''-o'',
      StrDir dds_dir, StrFile png_path]"

text \<open>
  The loop of \<open>convert_svgs_to_pngs\<close> over \<open>svg_files\<close>, with its counters
  \<open>converted\<close> and \<open>skipped\<close>; the end of the list is the code after the loop.
\<close>

fun svg_loop ::
  "tool \<Rightarrow> string \<Rightarrow> string \<Rightarrow> string list \<Rightarrow> nat \<Rightarrow> nat \<Rightarrow> state \<Rightarrow> (exn + nat) \<times> state"
where
  "svg_loop env svg_dir png_dir [] converted skipped st =
     (Inr converted,
      if skipped > 0
      then print (''  Skipped '' @ str_nat skipped @ '' SVGs (PNGs already exist)'') st
      else st)"
| "svg_loop env svg_dir png_dir (name # rest) converted skipped st =
     (let png_name = stem name @ ''.png'';
          png_path = (png_dir, png_name)
      in if exists (fs st) png_path
         then svg_loop env svg_dir png_dir rest converted (skipped + 1) st
         else
           (case subprocess_run env (magick_cmd (svg_dir, name) png_path) st of
              (Inr (returncode, stderr), st1) \<Rightarrow>
                if returncode = 0
                then svg_loop env svg_dir png_dir rest (converted + 1) skipped
                       (print (''  [OK] '' @ name @ '' -> '' @ png_name) st1)
                else svg_loop env svg_dir png_dir rest converted skipped
                       (print (''  [ERR] '' @ name @ '' - ImageMagick error: '' @ stderr) st1)
            | (Inl FileNotFoundError, st1) \<Rightarrow>
                (Inr converted,
                 print ''    Download from: https://imagemagick.org/script/download.php''
                   (print ''  [ERR] magick not found in PATH!'' st1))
            | (Inl e, st1) \<Rightarrow>
                svg_loop env svg_dir png_dir rest converted skipped
                  (print (''  [ERR] '' @ name @ '' - Error: '' @ str_exn e) st1)))"

definition convert_svgs_to_pngs ::
  "tool \<Rightarrow> string \<Rightarrow> string \<Rightarrow> state \<Rightarrow> (exn + nat) \<times> state" where
  "convert_svgs_to_pngs env svg_dir png_dir st =
     (let st1 = mkdir svg_dir st;
          st2 = mkdir png_dir st1;
          svg_files = glob (fs st2) svg_dir ''.svg''
      in if svg_files = [] then (Inr 0, print ''No SVG files found'' st2)
         else svg_loop env svg_dir png_dir svg_files 0 0 st2)"

text \<open>The loop of \<open>convert_pngs_to_dds\<close> over \<open>png_files\<close>.\<close>

fun png_loop ::
  "tool \<Rightarrow> string \<Rightarrow> string \<Rightarrow> string list \<Rightarrow> nat \<Rightarrow> state \<Rightarrow> (exn + nat) \<times> state"
where
  "png_loop env png_dir dds_dir [] converted st = (Inr converted, st)"
| "png_loop env png_dir dds_dir (name # rest) converted st =
     (let dds_name = stem name @ ''.dds''
      in case subprocess_run env (texconv_cmd dds_dir (png_dir, name)) st of
           (Inr (returncode, stderr), st1) \<Rightarrow>
             if returncode = 0
             then png_loop env png_dir dds_dir rest (converted + 1)
                    (print (''  [OK] '' @ name @ '' -> '' @ dds_name) st1)
             else png_loop env png_dir dds_dir rest converted
                    (print (''  [ERR] '' @ name @ '' - texconv error: '' @ stderr) st1)
         | (Inl FileNotFoundError, st1) \<Rightarrow>
             (Inr converted,
              print ''    Download from: https://github.com/Microsoft/DirectXTex/releases''
                (print ''  [ERR] texconv not found in PATH!'' st1))
         | (Inl e, st1) \<Rightarrow>
             png_loop env png_dir dds_dir rest converted
               (print (''  [ERR] '' @ name @ '' - Error: '' @ str_exn e) st1))"

definition convert_pngs_to_dds ::
  "tool \<Rightarrow> string \<Rightarrow> string \<Rightarrow> state \<Rightarrow> (exn + nat) \<times> state" where
  "convert_pngs_to_dds env png_dir dds_dir st =
     (let st1 = mkdir dds_dir st;
          png_files = glob (fs st1) png_dir ''.png''
      in if png_files = [] then (Inr 0, print (''No PNG files found in '' @ png_dir) st1)
         else png_loop env png_dir dds_dir png_files 0
                (print (''Converting '' @ str_nat (length png_files) @ '' PNG files to DDS...'')
                   st1))"

text \<open>
  The loop of \<open>copy_to_mod_folder\<close>. The copy stands outside any \<open>try\<close>: what
  \<open>copy2\<close> raises leaves the loop and the function.
\<close>

fun copy_loop ::
  "string \<Rightarrow> string \<Rightarrow> string list \<Rightarrow> nat \<Rightarrow> state \<Rightarrow> (exn + nat) \<times> state"
where
  "copy_loop dds_dir mod_dir [] copied st = (Inr copied, st)"
| "copy_loop dds_dir mod_dir (name # rest) copied st =
     (case copy2 (dds_dir, name) (mod_dir, name) st of
        (Inl e, st1) \<Rightarrow> (Inl e, st1)
      | (Inr _, st1) \<Rightarrow>
          copy_loop dds_dir mod_dir rest (copied + 1)
            (print (''  [OK] '' @ name @ '' (DDS)'') st1))"

definition copy_to_mod_folder ::
  "string \<Rightarrow> string \<Rightarrow> string \<Rightarrow> state \<Rightarrow> (exn + nat) \<times> state" where
  "copy_to_mod_folder png_dir dds_dir mod_dir st =
     (let st1 = mkdir mod_dir st;
          st2 = print ([char_of (10::nat)] @ ''Copying files to mod folder: '' @ mod_dir) st1
      in copy_loop dds_dir mod_dir (glob (fs st2) dds_dir ''.dds'') 0 st2)"

section \<open>The orchestrator\<close>

text \<open>
  \<open>main\<close> takes the directory of the script and the module constant
  \<open>MOD_TEXTURES_DIR\<close>; \<open>script_dir / "svg"\<close> is the path string with the name appended.
\<close>

definition joinpath :: "string \<Rightarrow> string \<Rightarrow> string" where
  "joinpath d n = d @ ''/'' @ n"

definition main :: "tool \<Rightarrow> string \<Rightarrow> string \<Rightarrow> state \<Rightarrow> (exn + unit) \<times> state" where
  "main env script_dir MOD_TEXTURES_DIR st =
     (let svg_dir = joinpath script_dir ''svg'';
          png_dir = joinpath script_dir ''pngs'';
          dds_dir = joinpath script_dir ''dds'';
          nl = [char_of (10::nat)];
          st = print (replicate 60 CHR ''='') st;
          st = print ''Icon DDS Converter & Deployer'' st;
          st = print (replicate 60 CHR ''='') st;
          st = print (nl @ ''[1/3] SVG -> PNG conversion'') st;
          st = print (replicate 40 CHR ''-'') st
      in case convert_svgs_to_pngs env svg_dir png_dir st of
           (Inl e, st) \<Rightarrow> (Inl e, st)
         | (Inr svg_count, st) \<Rightarrow>
             (let st = print (nl @ ''[2/3] PNG -> DDS conversion'') st;
                  st = print (replicate 40 CHR ''-'') st
              in case convert_pngs_to_dds env png_dir dds_dir st of
                   (Inl e, st) \<Rightarrow> (Inl e, st)
                 | (Inr dds_count, st) \<Rightarrow>
                     (let st = print (nl @ ''[3/3] Deploy to mod folder'') st;
                          st = print (replicate 40 CHR ''-'') st
                      in case copy_to_mod_folder png_dir dds_dir MOD_TEXTURES_DIR st of
                           (Inl e, st) \<Rightarrow> (Inl e, st)
                         | (Inr copy_count, st) \<Rightarrow>
                             (let st = print (nl @ replicate 60 CHR ''='') st;
                                  st = print (''Done! Converted '' @ str_nat svg_count
                                         @ '' SVGs, '' @ str_nat dds_count
                                         @ '' DDS files, copied '' @ str_nat copy_count
                                         @ '' total files.'') st;
                                  st = print (replicate 60 CHR ''='') st
                              in (Inr (), st)))))"

section \<open>Reading the invocation log\<close>

text \<open>
  An invocation succeeded when the process returned 0, which is what the stages count;
  the binary was not found when the call raised \<open>FileNotFoundError\<close>; the tool
  failed when it returned another code, with the captured error text.
\<close>

definition succeeded :: "invocation \<Rightarrow> bool" where
  "succeeded i = (case result i of Completed rc err \<Rightarrow> rc = 0 | Raised e \<Rightarrow> False)"

definition not_found :: "invocation \<Rightarrow> bool" where
  "not_found i = (result i = Raised FileNotFoundError)"

definition failed_with :: "invocation \<Rightarrow> string option" where
  "failed_with i =
     (case result i of
        Completed rc err \<Rightarrow> if rc = 0 then None else Some err
      | Raised e \<Rightarrow> None)"

text \<open>The invocations a run added to the log.\<close>

definition new_calls :: "state \<Rightarrow> state \<Rightarrow> invocation list" where
  "new_calls st st' = drop (length (log st)) (log st')"

definition is_dir :: "filesystem \<Rightarrow> path \<Rightarrow> bool" where
  "is_dir f p = (case lookup f p of Some (Dir es) \<Rightarrow> True | _ \<Rightarrow> False)"

text \<open>The text a run printed.\<close>

definition new_lines :: "state \<Rightarrow> state \<Rightarrow> string list" where
  "new_lines st st' = drop (length (stdout st)) (stdout st')"

text \<open>
  What a finished copy of the file \<open>n\<close> from \<open>dds_dir\<close> to \<open>mod_dir\<close> looks like,
  between the filesystem before and the one after: the source is a regular file and
  still the same, and the destination holds a regular file with the content and
  metadata of the source; when the destination name was a subdirectory before, the file
  is inside it, under the same name.
\<close>

definition deployed :: "filesystem \<Rightarrow> filesystem \<Rightarrow> string \<Rightarrow> string \<Rightarrow> string \<Rightarrow> bool" where
  "deployed f f' dds_dir mod_dir n =
     (case lookup f (dds_dir, n) of
        Some (File b m) \<Rightarrow>
          lookup f' (dds_dir, n) = Some (File b m)
          \<and> (case lookup f (mod_dir, n) of
                Some (Dir inner) \<Rightarrow>
                  (case lookup f' (mod_dir, n) of
                     Some (Dir inner') \<Rightarrow> map_of inner' n = Some (File b m)
                   | _ \<Rightarrow> False)
              | _ \<Rightarrow> lookup f' (mod_dir, n) = Some (File b m))
      | _ \<Rightarrow> False)"

definition prints :: "string list \<Rightarrow> state \<Rightarrow> state" where
  "prints ls st = st\<lparr>stdout := stdout st @ ls\<rparr>"

section \<open>The behaviour the specification describes\<close>

text \<open>
  The specification sorts the outcomes of a launch: the binary cannot be launched
  (\<open>FileNotFoundError\<close>), which ends the stage at once; the tool returns another code
  than 0, or the launch fails otherwise, which skips that one file; and success. Each is
  reported as text. The following definitions state this behaviour apart from the
  loops, to compare the loops with.

  \<open>report1\<close> and \<open>report2\<close> are the lines a stage prints for one file, by the
  outcome of its launch.
\<close>

definition zero_exit :: "outcome \<Rightarrow> bool" where
  "zero_exit r = (case r of Completed rc err \<Rightarrow> rc = 0 | Raised e \<Rightarrow> False)"

fun report1 :: "string \<Rightarrow> outcome \<Rightarrow> string list" where
  "report1 name (Completed rc err) =
     (if rc = 0 then [''  [OK] '' @ name @ '' -> '' @ stem name @ ''.png'']
      else [''  [ERR] '' @ name @ '' - ImageMagick error: '' @ err])"
| "report1 name (Raised FileNotFoundError) =
     [''  [ERR] magick not found in PATH!'',
      ''    Download from: https://imagemagick.org/script/download.php'']"
| "report1 name (Raised e) = [''  [ERR] '' @ name @ '' - Error: '' @ str_exn e]"

fun report2 :: "string \<Rightarrow> outcome \<Rightarrow> string list" where
  "report2 name (Completed rc err) =
     (if rc = 0 then [''  [OK] '' @ name @ '' -> '' @ stem name @ ''.dds'']
      else [''  [ERR] '' @ name @ '' - texconv error: '' @ err])"
| "report2 name (Raised FileNotFoundError) =
     [''  [ERR] texconv not found in PATH!'',
      ''    Download from: https://github.com/Microsoft/DirectXTex/releases'']"
| "report2 name (Raised e) = [''  [ERR] '' @ name @ '' - Error: '' @ str_exn e]"

text \<open>
  Given the outcome \<open>res x\<close> of the launch for each file \<open>x\<close> of a batch:
  \<open>attempted\<close> are the files launched, up to and including the first whose binary
  cannot be launched, and \<open>completed\<close> is the count returned, the successes before
  that point.
\<close>

fun attempted :: "('a \<Rightarrow> outcome) \<Rightarrow> 'a list \<Rightarrow> 'a list" where
  "attempted res [] = []"
| "attempted res (x # xs) =
     (if res x = Raised FileNotFoundError then [x] else x # attempted res xs)"

fun completed :: "('a \<Rightarrow> outcome) \<Rightarrow> 'a list \<Rightarrow> nat" where
  "completed res [] = 0"
| "completed res (x # xs) =
     (if res x = Raised FileNotFoundError then 0
      else (if zero_exit (res x) then 1 else 0) + completed res xs)"

text \<open>The sources of a listing that have no raster yet.\<close>

definition pending :: "filesystem \<Rightarrow> string \<Rightarrow> string \<Rightarrow> string list" where
  "pending f svg_dir png_dir =
     filter (\<lambda>n. \<not> exists f (png_dir, stem n @ ''.png'')) (glob f svg_dir ''.svg'')"

section \<open>Sample tools and states\<close>

text \<open>
  Tools to run the model on: one that always converts, one whose binary is missing,
  one that fails on every file, one that returns 0 and writes nothing, and one that
  converts the files named \<open>a\<close>, cannot be launched for those named \<open>b\<close> and fails
  on the others; and the state with given directories, nothing logged and nothing
  printed.
\<close>

definition tool_silent :: tool where
  "tool_silent h f a = (Completed 0 [], None)"

definition out_mixed :: "arg list \<Rightarrow> outcome" where
  "out_mixed a =
     (if StrFile (''svg'', ''b.svg'') \<in> set a \<or> StrFile (''pngs'', ''b.png'') \<in> set a
      then Raised FileNotFoundError
      else if StrFile (''svg'', ''a.svg'') \<in> set a \<or> StrFile (''pngs'', ''a.png'') \<in> set a
      then Completed 0 []
      else Completed 1 ''bad input'')"

definition tool_mixed :: tool where
  "tool_mixed h f a = (out_mixed a, None)"

definition tool_ok :: tool where
  "tool_ok h f a = (Completed 0 [], Some ([1, 2, 3], 7))"

definition tool_missing :: tool where
  "tool_missing h f a = (Raised FileNotFoundError, None)"

definition tool_failing :: tool where
  "tool_failing h f a = (Completed 1 ''bad input'', None)"

definition st_of :: "(string \<times> directory) list \<Rightarrow> state" where
  "st_of ds = \<lparr>fs = map_of ds, log = [], stdout = []\<rparr>"

section \<open>Basic facts about the environment\<close>

lemma print_simps [simp]:
  "fs (print s st) = fs st"
  "log (print s st) = log st"
  "stdout (print s st) = stdout st @ [s]"
  by (simp_all add: print_def)

lemma mkdir_log [simp]: "log (mkdir d st) = log st"
  by (simp add: mkdir_def split: option.split)

lemma mkdir_stdout [simp]: "stdout (mkdir d st) = stdout st"
  by (simp add: mkdir_def split: option.split)

lemma mkdir_fs:
  "fs (mkdir d st) d' = (if d' = d \<and> fs st d = None then Some [] else fs st d')"
  by (simp add: mkdir_def split: option.split)

lemma mkdir_lookup [simp]: "lookup (fs (mkdir d st)) p = lookup (fs st) p"
  by (simp add: lookup_def mkdir_fs)

lemma mkdir_glob [simp]: "glob (fs (mkdir d st)) d' ext = glob (fs st) d' ext"
  by (simp add: glob_def mkdir_fs)

lemma mkdir_exists [simp]: "exists (fs (mkdir d st)) p = exists (fs st) p"
  by (simp add: exists_def)

lemma mkdir_created [simp]: "fs (mkdir d st) d \<noteq> None"
  by (simp add: mkdir_fs)

lemma mkdir_keeps: "fs st d' \<noteq> None \<Longrightarrow> fs (mkdir d st) d' \<noteq> None"
  by (simp add: mkdir_fs)

subsection \<open>Writing a file\<close>

lemma put_dir [simp]: "(put p v f d = None) = (f d = None)"
  by (simp add: put_def split: option.split)

lemma lookup_put:
  "lookup (put p v f) q = (if q = p \<and> f (fst p) \<noteq> None then Some v else lookup f q)"
  by (cases p; cases q) (auto simp add: lookup_def put_def update_conv' split: option.split)

lemma write_file_dir [simp]: "(write_file p c f d = None) = (f d = None)"
  by (simp add: write_file_def split: option.split node.split)

lemma lookup_write_file_other: "q \<noteq> p \<Longrightarrow> lookup (write_file p c f) q = lookup f q"
  by (simp add: write_file_def lookup_put split: option.split node.split)

lemma lookup_write_file_same:
  "f (fst p) \<noteq> None \<Longrightarrow> \<not> is_dir f p \<Longrightarrow>
   lookup (write_file p c f) p = Some (File (fst c) (snd c))"
  by (auto simp add: write_file_def lookup_put is_dir_def split: option.split node.split)

lemma exists_write_file: "exists f q \<Longrightarrow> exists (write_file p c f) q"
  by (auto simp add: exists_def write_file_def lookup_put split: option.split node.split)

lemma exists_write_file_same: "f (fst p) \<noteq> None \<Longrightarrow> exists (write_file p c f) p"
  by (auto simp add: exists_def write_file_def lookup_put split: option.split node.split)

lemma is_dir_write_file [simp]: "is_dir (write_file p c f) q = is_dir f q"
  by (auto simp add: is_dir_def write_file_def lookup_put split: option.split node.split)

subsection \<open>What one tool run changes\<close>

lemma subprocess_run_log:
  "subprocess_run env args st = (r, st') \<Longrightarrow>
   \<exists>i. log st' = log st @ [i] \<and> argv i = args
     \<and> r = (case result i of Completed rc err \<Rightarrow> Inr (rc, err) | Raised e \<Rightarrow> Inl e)"
  by (auto simp add: subprocess_run_def Let_def split: prod.splits)

lemma subprocess_run_stdout:
  "subprocess_run env args st = (r, st') \<Longrightarrow> stdout st' = stdout st"
  by (auto simp add: subprocess_run_def Let_def split: prod.splits)

lemma subprocess_run_dir:
  "subprocess_run env args st = (r, st') \<Longrightarrow> (fs st' d = None) = (fs st d = None)"
  by (auto simp add: subprocess_run_def Let_def split: prod.splits option.splits)

lemma subprocess_run_other:
  "subprocess_run env args st = (r, st') \<Longrightarrow> target args \<noteq> Some q \<Longrightarrow>
   lookup (fs st') q = lookup (fs st) q"
  by (auto simp add: subprocess_run_def Let_def lookup_write_file_other
           split: prod.splits option.splits)

lemma subprocess_run_exists:
  "subprocess_run env args st = (r, st') \<Longrightarrow> exists (fs st) q \<Longrightarrow> exists (fs st') q"
  by (auto simp add: subprocess_run_def Let_def exists_write_file
           split: prod.splits option.splits)

lemma subprocess_run_is_dir:
  "subprocess_run env args st = (r, st') \<Longrightarrow> is_dir (fs st') q = is_dir (fs st) q"
  by (auto simp add: subprocess_run_def Let_def split: prod.splits option.splits)

lemma subprocess_run_written:
  "subprocess_run env args st = (r, st') \<Longrightarrow> log st' = log st @ [i] \<Longrightarrow>
   written i \<noteq> None \<Longrightarrow> target args = Some p \<Longrightarrow> fs st (fst p) \<noteq> None \<Longrightarrow>
   exists (fs st') p"
  by (auto simp add: subprocess_run_def Let_def exists_write_file_same
           split: prod.splits option.splits)

lemma target_magick [simp]: "target (magick_cmd s p) = Some p"
  by (simp add: magick_cmd_def)

lemma target_texconv [simp]:
  "target (texconv_cmd d p) = Some (d, stem (snd p) @ ''.dds'')"
  by (simp add: texconv_cmd_def)



section \<open>The loop of stage 1\<close>

lemma new_calls_self [simp]: "new_calls st st = []"
  by (simp add: new_calls_def)

lemma new_calls_log: "log st' = log st \<Longrightarrow> new_calls st st' = []"
  by (simp add: new_calls_def)

lemma new_calls_eq: "log st1 = log st \<Longrightarrow> new_calls st st' = new_calls st1 st'"
  by (simp add: new_calls_def)

lemma new_calls_append: "log st' = log st @ new \<Longrightarrow> new_calls st st' = new"
  by (simp add: new_calls_def)

lemma new_calls_print [simp]: "new_calls st (print s st') = new_calls st st'"
  by (simp add: new_calls_def)

lemma new_calls_step:
  assumes "log st1 = log st @ [i]" and "log st' = log st1 @ new_calls st1 st'"
  shows "new_calls st st' = i # new_calls st1 st' \<and> log st' = log st @ new_calls st st'"
proof -
  define N where "N = new_calls st1 st'"
  from assms have eq: "log st' = log st @ i # N" by (simp add: N_def)
  then have "new_calls st st' = i # N" by (simp add: new_calls_def)
  with eq show ?thesis by (simp add: N_def)
qed

lemma svg_loop_Cons_cases:
  assumes "svg_loop env svg_dir png_dir (name # rest) c k st = (r, st')"
  obtains
    (skip) "exists (fs st) (png_dir, stem name @ ''.png'')"
      "svg_loop env svg_dir png_dir rest c (k + 1) st = (r, st')"
  | (abort) st1 i where "\<not> exists (fs st) (png_dir, stem name @ ''.png'')"
      "subprocess_run env (magick_cmd (svg_dir, name) (png_dir, stem name @ ''.png'')) st
         = (Inl FileNotFoundError, st1)"
      "log st1 = log st @ [i]" "not_found i"
      "argv i = magick_cmd (svg_dir, name) (png_dir, stem name @ ''.png'')"
      "r = Inr c" "log st' = log st1" "fs st' = fs st1"
  | (continue) r1 st1 i line where "\<not> exists (fs st) (png_dir, stem name @ ''.png'')"
      "subprocess_run env (magick_cmd (svg_dir, name) (png_dir, stem name @ ''.png'')) st
         = (r1, st1)"
      "log st1 = log st @ [i]" "\<not> not_found i"
      "argv i = magick_cmd (svg_dir, name) (png_dir, stem name @ ''.png'')"
      "svg_loop env svg_dir png_dir rest (if succeeded i then c + 1 else c) k (print line st1)
         = (r, st')"
      "\<forall>err. failed_with i = Some err \<longrightarrow>
         line = ''  [ERR] '' @ name @ '' - ImageMagick error: '' @ err"
proof (cases "exists (fs st) (png_dir, stem name @ ''.png'')")
  case True
  with assms show ?thesis by (auto intro: skip)
next
  case False
  obtain r1 st1 where run:
    "subprocess_run env (magick_cmd (svg_dir, name) (png_dir, stem name @ ''.png'')) st = (r1, st1)"
    by (cases "subprocess_run env (magick_cmd (svg_dir, name) (png_dir, stem name @ ''.png'')) st")
  from subprocess_run_log [OF run] obtain i where
    i: "log st1 = log st @ [i]"
       "argv i = magick_cmd (svg_dir, name) (png_dir, stem name @ ''.png'')"
       "r1 = (case result i of Completed rc err \<Rightarrow> Inr (rc, err) | Raised e \<Rightarrow> Inl e)"
    by blast
  show ?thesis
  proof (cases "not_found i")
    case True
    then have res: "result i = Raised FileNotFoundError" by (simp add: not_found_def)
    with i have r1: "r1 = Inl FileNotFoundError" by simp
    from assms False run r1 have "r = Inr c" "log st' = log st1" "fs st' = fs st1"
      by (auto simp add: Let_def)
    with False run r1 i True show ?thesis
      by (intro abort [of st1 i]) auto
  next
    case nf: False
    have "\<exists>line. svg_loop env svg_dir png_dir rest (if succeeded i then c + 1 else c) k
             (print line st1) = (r, st')
           \<and> (\<forall>err. failed_with i = Some err \<longrightarrow>
                 line = ''  [ERR] '' @ name @ '' - ImageMagick error: '' @ err)"
    proof (cases "result i")
      case (Completed rc err)
      with assms False run i show ?thesis
        by (cases "rc = 0") (auto simp add: Let_def succeeded_def failed_with_def)
    next
      case (Raised e)
      with nf have "e \<noteq> FileNotFoundError" by (simp add: not_found_def)
      with assms False run i Raised show ?thesis
        by (cases e) (auto simp add: Let_def succeeded_def failed_with_def)
    qed
    then obtain line where
      "svg_loop env svg_dir png_dir rest (if succeeded i then c + 1 else c) k (print line st1)
         = (r, st')"
      "\<forall>err. failed_with i = Some err \<longrightarrow>
         line = ''  [ERR] '' @ name @ '' - ImageMagick error: '' @ err"
      by blast
    with False run i nf show ?thesis
      by (intro continue [of r1 st1 i line]) auto
  qed
qed

lemma svg_loop_log:
  "svg_loop env svg_dir png_dir files c k st = (r, st') \<Longrightarrow>
   log st' = log st @ new_calls st st'
     \<and> r = Inr (c + length (filter succeeded (new_calls st st')))
     \<and> (\<forall>i \<in> set (butlast (new_calls st st')). \<not> not_found i)
     \<and> length (new_calls st st') \<le> length files"
proof (induction files arbitrary: c k st)
  case Nil
  then show ?case by (auto split: if_splits)
next
  case (Cons name rest)
  from Cons.prems show ?case
  proof (cases rule: svg_loop_Cons_cases)
    case skip
    from Cons.IH [OF skip(2)] show ?thesis by auto
  next
    case (abort st1 i)
    then have "new_calls st st' = [i]" by (simp add: new_calls_append)
    with abort show ?thesis by (simp add: succeeded_def not_found_def)
  next
    case (continue r1 st1 i line)
    let ?st2 = "print line st1"
    have l2: "log ?st2 = log st @ [i]" using continue(3) by simp
    from Cons.IH [OF continue(6)] have
      ih: "log st' = log ?st2 @ new_calls ?st2 st'"
        "r = Inr ((if succeeded i then c + 1 else c)
                  + length (filter succeeded (new_calls ?st2 st')))"
        "\<forall>i \<in> set (butlast (new_calls ?st2 st')). \<not> not_found i"
        "length (new_calls ?st2 st') \<le> length rest"
      by blast+
    from new_calls_step [OF l2 ih(1)] ih continue(4) show ?thesis by auto
  qed
qed

lemma svg_loop_frame:
  "svg_loop env svg_dir png_dir files c k st = (r, st') \<Longrightarrow> exists (fs st) q \<Longrightarrow>
   lookup (fs st') q = lookup (fs st) q"
proof (induction files arbitrary: c k st)
  case Nil
  then show ?case by (auto split: if_splits)
next
  case (Cons name rest)
  from Cons.prems(1) show ?case
  proof (cases rule: svg_loop_Cons_cases)
    case skip
    from Cons.IH [OF skip(2) Cons.prems(2)] show ?thesis .
  next
    case (abort st1 i)
    with Cons.prems(2) have "(png_dir, stem name @ ''.png'') \<noteq> q" by auto
    with subprocess_run_other [OF abort(2), of q] abort show ?thesis by simp
  next
    case (continue r1 st1 i line)
    with Cons.prems(2) have ne: "(png_dir, stem name @ ''.png'') \<noteq> q" by auto
    with subprocess_run_other [OF continue(2), of q]
    have same: "lookup (fs st1) q = lookup (fs st) q" by simp
    with Cons.prems(2) have "exists (fs (print line st1)) q" by (simp add: exists_def)
    from Cons.IH [OF continue(6) this] same show ?thesis by simp
  qed
qed

lemma svg_loop_exists:
  "svg_loop env svg_dir png_dir files c k st = (r, st') \<Longrightarrow> exists (fs st) q \<Longrightarrow>
   exists (fs st') q"
  using svg_loop_frame [of env svg_dir png_dir files c k st r st' q]
  by (simp add: exists_def)

lemma svg_loop_dir:
  "svg_loop env svg_dir png_dir files c k st = (r, st') \<Longrightarrow>
   (fs st' d = None) = (fs st d = None)"
proof (induction files arbitrary: c k st)
  case Nil
  then show ?case by (auto split: if_splits)
next
  case (Cons name rest)
  from Cons.prems(1) show ?case
  proof (cases rule: svg_loop_Cons_cases)
    case skip
    from Cons.IH [OF skip(2)] show ?thesis .
  next
    case (abort st1 i)
    with subprocess_run_dir [OF abort(2), of d] show ?thesis by simp
  next
    case (continue r1 st1 i line)
    from Cons.IH [OF continue(6)] subprocess_run_dir [OF continue(2), of d]
    show ?thesis by simp
  qed
qed

text \<open>Every invocation of the loop is for a listed file whose raster did not exist.\<close>

lemma svg_loop_invoked:
  "svg_loop env svg_dir png_dir files c k st = (r, st') \<Longrightarrow>
   \<forall>i \<in> set (new_calls st st'). \<exists>n \<in> set files.
      argv i = magick_cmd (svg_dir, n) (png_dir, stem n @ ''.png'')
      \<and> \<not> exists (fs st) (png_dir, stem n @ ''.png'')"
proof (induction files arbitrary: c k st)
  case Nil
  then show ?case by (auto simp add: new_calls_log split: if_splits)
next
  case (Cons name rest)
  from Cons.prems(1) show ?case
  proof (cases rule: svg_loop_Cons_cases)
    case skip
    from Cons.IH [OF skip(2)] show ?thesis by auto
  next
    case (abort st1 i)
    then have "new_calls st st' = [i]" by (simp add: new_calls_append)
    with abort show ?thesis by simp
  next
    case (continue r1 st1 i line)
    let ?st2 = "print line st1"
    have l2: "log ?st2 = log st @ [i]" using continue(3) by simp
    from svg_loop_log [OF continue(6)] have "log st' = log ?st2 @ new_calls ?st2 st'"
      by blast
    from new_calls_step [OF l2 this] have nc: "new_calls st st' = i # new_calls ?st2 st'"
      by blast
    have mono: "\<not> exists (fs ?st2) q \<Longrightarrow> \<not> exists (fs st) q" for q
      using subprocess_run_exists [OF continue(2), of q] by auto
    from Cons.IH [OF continue(6)] mono
    have "\<forall>i \<in> set (new_calls ?st2 st'). \<exists>n \<in> set rest.
            argv i = magick_cmd (svg_dir, n) (png_dir, stem n @ ''.png'')
            \<and> \<not> exists (fs st) (png_dir, stem n @ ''.png'')"
      by blast
    with nc continue(1,5) show ?thesis by auto
  qed
qed

lemma exists_iff:
  "exists f (d, n) = (case f d of None \<Rightarrow> False | Some es \<Rightarrow> n \<in> fst ` set es)"
  by (simp add: exists_def lookup_def map_of_eq_None_iff del: not_None_eq
           split: option.split)

lemma glob_set: "set (glob f d ext) = {n. ends_with ext n \<and> exists f (d, n)}"
  by (cases "f d") (auto simp add: glob_def exists_iff)

lemma glob_distinct: "distinct (glob f d ext)"
  by (simp add: glob_def split: option.split)

lemma not_svg_png: "\<not> ends_with ''.svg'' (x @ ''.png'')"
  by (simp add: ends_with_def)

lemma subprocess_run_creates:
  "subprocess_run env args st = (r, st') \<Longrightarrow> exists (fs st') q \<Longrightarrow>
   exists (fs st) q \<or> target args = Some q"
  using subprocess_run_other [of env args st r st' q]
  by (cases "target args = Some q") (simp_all add: exists_def)

lemma svg_loop_creates:
  "svg_loop env svg_dir png_dir files c k st = (r, st') \<Longrightarrow> exists (fs st') q \<Longrightarrow>
   exists (fs st) q \<or> (\<exists>n \<in> set files. q = (png_dir, stem n @ ''.png''))"
proof (induction files arbitrary: c k st)
  case Nil
  then show ?case by (auto split: if_splits)
next
  case (Cons name rest)
  from Cons.prems(1) show ?case
  proof (cases rule: svg_loop_Cons_cases)
    case skip
    from Cons.IH [OF skip(2) Cons.prems(2)] show ?thesis by auto
  next
    case (abort st1 i)
    with Cons.prems(2) have "exists (fs st1) q" by simp
    from subprocess_run_creates [OF abort(2) this] show ?thesis by auto
  next
    case (continue r1 st1 i line)
    from Cons.IH [OF continue(6) Cons.prems(2)]
    have "exists (fs st1) q \<or> (\<exists>n \<in> set rest. q = (png_dir, stem n @ ''.png''))"
      by simp
    with subprocess_run_creates [OF continue(2), of q] show ?thesis by auto
  qed
qed

lemma svg_loop_written:
  "svg_loop env svg_dir png_dir files c k st = (r, st') \<Longrightarrow> fs st png_dir \<noteq> None \<Longrightarrow>
   \<forall>i \<in> set (new_calls st st'). written i \<noteq> None \<longrightarrow>
      (\<forall>p. target (argv i) = Some p \<longrightarrow> exists (fs st') p)"
proof (induction files arbitrary: c k st)
  case Nil
  then show ?case by (auto simp add: new_calls_log split: if_splits)
next
  case (Cons name rest)
  from Cons.prems(1) show ?case
  proof (cases rule: svg_loop_Cons_cases)
    case skip
    from Cons.IH [OF skip(2) Cons.prems(2)] show ?thesis .
  next
    case (abort st1 i)
    then have nc: "new_calls st st' = [i]" by (simp add: new_calls_append)
    from subprocess_run_written [OF abort(2,3)] Cons.prems(2) abort(8)
    have "written i \<noteq> None \<Longrightarrow> exists (fs st') (png_dir, stem name @ ''.png'')"
      by simp
    with nc abort(5) show ?thesis by auto
  next
    case (continue r1 st1 i line)
    let ?st2 = "print line st1"
    have l2: "log ?st2 = log st @ [i]" using continue(3) by simp
    from svg_loop_log [OF continue(6)] have "log st' = log ?st2 @ new_calls ?st2 st'"
      by blast
    from new_calls_step [OF l2 this] have nc: "new_calls st st' = i # new_calls ?st2 st'"
      by blast
    from subprocess_run_dir [OF continue(2), of png_dir] Cons.prems(2)
    have dir: "fs ?st2 png_dir \<noteq> None" by simp
    from subprocess_run_written [OF continue(2,3)] Cons.prems(2)
    have "written i \<noteq> None \<Longrightarrow> exists (fs ?st2) (png_dir, stem name @ ''.png'')"
      by simp
    from svg_loop_exists [OF continue(6) this]
    have "written i \<noteq> None \<Longrightarrow> exists (fs st') (png_dir, stem name @ ''.png'')" .
    with Cons.IH [OF continue(6) dir] nc continue(5) show ?thesis by auto
  qed
qed

text \<open>When the binary is never missing, every listed file is invoked or has its raster.\<close>

lemma svg_loop_complete:
  "svg_loop env svg_dir png_dir files c k st = (r, st') \<Longrightarrow>
   \<forall>i \<in> set (new_calls st st'). \<not> not_found i \<Longrightarrow>
   \<forall>n \<in> set files. exists (fs st') (png_dir, stem n @ ''.png'')
      \<or> magick_cmd (svg_dir, n) (png_dir, stem n @ ''.png'') \<in> argv ` set (new_calls st st')"
proof (induction files arbitrary: c k st)
  case Nil
  then show ?case by simp
next
  case (Cons name rest)
  from Cons.prems(1) show ?case
  proof (cases rule: svg_loop_Cons_cases)
    case skip
    from svg_loop_exists [OF skip(2,1)] Cons.IH [OF skip(2) Cons.prems(2)]
    show ?thesis by simp
  next
    case (abort st1 i)
    then have "new_calls st st' = [i]" by (simp add: new_calls_append)
    with Cons.prems(2) abort(4) show ?thesis by simp
  next
    case (continue r1 st1 i line)
    let ?st2 = "print line st1"
    have l2: "log ?st2 = log st @ [i]" using continue(3) by simp
    from svg_loop_log [OF continue(6)] have "log st' = log ?st2 @ new_calls ?st2 st'"
      by blast
    from new_calls_step [OF l2 this] have nc: "new_calls st st' = i # new_calls ?st2 st'"
      by blast
    with Cons.prems(2) have "\<forall>i \<in> set (new_calls ?st2 st'). \<not> not_found i" by simp
    from Cons.IH [OF continue(6) this] nc continue(5) show ?thesis by auto
  qed
qed

lemma svg_loop_all_skipped:
  "\<forall>n \<in> set files. exists (fs st) (png_dir, stem n @ ''.png'') \<Longrightarrow>
   \<exists>st'. svg_loop env svg_dir png_dir files c k st = (Inr c, st')
      \<and> log st' = log st \<and> fs st' = fs st"
  by (induction files arbitrary: k) (auto simp add: Let_def)

lemma length_filter_mono:
  "(\<And>x. x \<in> set xs \<Longrightarrow> P x \<Longrightarrow> Q x) \<Longrightarrow> length (filter P xs) \<le> length (filter Q xs)"
  by (induction xs) auto

lemma svg_loop_few:
  "svg_loop env svg_dir png_dir files c k st = (r, st') \<Longrightarrow>
   length (new_calls st st')
     \<le> length (filter (\<lambda>n. \<not> exists (fs st) (png_dir, stem n @ ''.png'')) files)"
proof (induction files arbitrary: c k st)
  case Nil
  then show ?case by (auto simp add: new_calls_log split: if_splits)
next
  case (Cons name rest)
  from Cons.prems(1) show ?case
  proof (cases rule: svg_loop_Cons_cases)
    case skip
    from Cons.IH [OF skip(2)] skip(1) show ?thesis by simp
  next
    case (abort st1 i)
    then have "new_calls st st' = [i]" by (simp add: new_calls_append)
    with abort(1) show ?thesis by simp
  next
    case (continue r1 st1 i line)
    let ?st2 = "print line st1"
    have l2: "log ?st2 = log st @ [i]" using continue(3) by simp
    from svg_loop_log [OF continue(6)] have "log st' = log ?st2 @ new_calls ?st2 st'"
      by blast
    from new_calls_step [OF l2 this] have nc: "new_calls st st' = i # new_calls ?st2 st'"
      by blast
    have "length (filter (\<lambda>n. \<not> exists (fs ?st2) (png_dir, stem n @ ''.png'')) rest)
          \<le> length (filter (\<lambda>n. \<not> exists (fs st) (png_dir, stem n @ ''.png'')) rest)"
      using subprocess_run_exists [OF continue(2)]
      by (intro length_filter_mono) auto
    with Cons.IH [OF continue(6)] nc continue(1) show ?thesis by simp
  qed
qed

lemma svg_loop_skipped:
  "svg_loop env svg_dir png_dir files c k st = (r, st') \<Longrightarrow>
   \<forall>i \<in> set (new_calls st st'). \<not> not_found i \<Longrightarrow>
   0 < k + length files - length (new_calls st st') \<Longrightarrow>
   stdout st' \<noteq> [] \<and> last (stdout st') =
     ''  Skipped '' @ str_nat (k + length files - length (new_calls st st'))
       @ '' SVGs (PNGs already exist)''"
proof (induction files arbitrary: c k st)
  case Nil
  then show ?case by (auto simp add: new_calls_log split: if_splits)
next
  case (Cons name rest)
  from Cons.prems(1) show ?case
  proof (cases rule: svg_loop_Cons_cases)
    case skip
    from Cons.IH [OF skip(2)] Cons.prems(2,3) show ?thesis by simp
  next
    case (abort st1 i)
    then have "new_calls st st' = [i]" by (simp add: new_calls_append)
    with Cons.prems(2) abort(4) show ?thesis by simp
  next
    case (continue r1 st1 i line)
    let ?st2 = "print line st1"
    have l2: "log ?st2 = log st @ [i]" using continue(3) by simp
    from svg_loop_log [OF continue(6)] have "log st' = log ?st2 @ new_calls ?st2 st'"
      by blast
    from new_calls_step [OF l2 this] have nc: "new_calls st st' = i # new_calls ?st2 st'"
      by blast
    with Cons.IH [OF continue(6)] Cons.prems(2,3) show ?thesis by simp
  qed
qed

lemma svg_loop_err_lines:
  "svg_loop env svg_dir png_dir files c k st = (r, st') \<Longrightarrow>
   set (stdout st) \<subseteq> set (stdout st')
   \<and> (\<forall>i \<in> set (new_calls st st'). \<forall>err. failed_with i = Some err \<longrightarrow>
         (\<exists>n \<in> set files. argv i = magick_cmd (svg_dir, n) (png_dir, stem n @ ''.png'')
            \<and> ''  [ERR] '' @ n @ '' - ImageMagick error: '' @ err \<in> set (stdout st')))"
proof (induction files arbitrary: c k st)
  case Nil
  then show ?case by (auto simp add: new_calls_log split: if_splits)
next
  case (Cons name rest)
  from Cons.prems(1) show ?case
  proof (cases rule: svg_loop_Cons_cases)
    case skip
    from Cons.IH [OF skip(2)] show ?thesis by auto
  next
    case (abort st1 i)
    then have nc: "new_calls st st' = [i]" by (simp add: new_calls_append)
    from Cons.prems(1) abort(1,2) subprocess_run_stdout [OF abort(2)]
    have "set (stdout st) \<subseteq> set (stdout st')" by (auto simp add: Let_def)
    with nc abort(4) show ?thesis by (simp add: failed_with_def not_found_def)
  next
    case (continue r1 st1 i line)
    let ?st2 = "print line st1"
    have l2: "log ?st2 = log st @ [i]" using continue(3) by simp
    from svg_loop_log [OF continue(6)] have "log st' = log ?st2 @ new_calls ?st2 st'"
      by blast
    from new_calls_step [OF l2 this] have nc: "new_calls st st' = i # new_calls ?st2 st'"
      by blast
    have out: "stdout ?st2 = stdout st @ [line]"
      using subprocess_run_stdout [OF continue(2)] by simp
    from Cons.IH [OF continue(6)] out nc continue(5,7) show ?thesis by auto
  qed
qed

lemma convert_svgs_to_pngs_empty:
  "glob (fs st) svg_dir ''.svg'' = [] \<Longrightarrow>
   convert_svgs_to_pngs env svg_dir png_dir st
     = (Inr 0, print ''No SVG files found'' (mkdir png_dir (mkdir svg_dir st)))"
  by (simp add: convert_svgs_to_pngs_def)

lemma convert_svgs_to_pngs_loop:
  "glob (fs st) svg_dir ''.svg'' \<noteq> [] \<Longrightarrow>
   convert_svgs_to_pngs env svg_dir png_dir st
     = svg_loop env svg_dir png_dir (glob (fs st) svg_dir ''.svg'') 0 0
         (mkdir png_dir (mkdir svg_dir st))"
  by (simp add: convert_svgs_to_pngs_def)

lemma new_calls_mkdir [simp]: "new_calls (mkdir d st) st' = new_calls st st'"
  by (simp add: new_calls_def)

section \<open>The loop of stage 2\<close>

lemma png_loop_Cons_cases:
  assumes "png_loop env png_dir dds_dir (name # rest) c st = (r, st')"
  obtains
    (abort) st1 i where
      "subprocess_run env (texconv_cmd dds_dir (png_dir, name)) st
         = (Inl FileNotFoundError, st1)"
      "log st1 = log st @ [i]" "not_found i"
      "argv i = texconv_cmd dds_dir (png_dir, name)"
      "r = Inr c" "log st' = log st1" "fs st' = fs st1"
      "set (stdout st) \<subseteq> set (stdout st')"
  | (continue) r1 st1 i line where
      "subprocess_run env (texconv_cmd dds_dir (png_dir, name)) st = (r1, st1)"
      "log st1 = log st @ [i]" "\<not> not_found i"
      "argv i = texconv_cmd dds_dir (png_dir, name)"
      "png_loop env png_dir dds_dir rest (if succeeded i then c + 1 else c) (print line st1)
         = (r, st')"
      "\<forall>err. failed_with i = Some err \<longrightarrow>
         line = ''  [ERR] '' @ name @ '' - texconv error: '' @ err"
proof -
  obtain r1 st1 where run:
    "subprocess_run env (texconv_cmd dds_dir (png_dir, name)) st = (r1, st1)"
    by (cases "subprocess_run env (texconv_cmd dds_dir (png_dir, name)) st")
  from subprocess_run_log [OF run] obtain i where
    i: "log st1 = log st @ [i]"
       "argv i = texconv_cmd dds_dir (png_dir, name)"
       "r1 = (case result i of Completed rc err \<Rightarrow> Inr (rc, err) | Raised e \<Rightarrow> Inl e)"
    by blast
  show ?thesis
  proof (cases "not_found i")
    case True
    then have res: "result i = Raised FileNotFoundError" by (simp add: not_found_def)
    with i have r1: "r1 = Inl FileNotFoundError" by simp
    from assms run r1 subprocess_run_stdout [OF run]
    have "r = Inr c" "log st' = log st1" "fs st' = fs st1"
      "set (stdout st) \<subseteq> set (stdout st')"
      by (auto simp add: Let_def)
    with run r1 i True show ?thesis
      by (intro abort [of st1 i]) auto
  next
    case nf: False
    have "\<exists>line. png_loop env png_dir dds_dir rest (if succeeded i then c + 1 else c)
             (print line st1) = (r, st')
           \<and> (\<forall>err. failed_with i = Some err \<longrightarrow>
                 line = ''  [ERR] '' @ name @ '' - texconv error: '' @ err)"
    proof (cases "result i")
      case (Completed rc err)
      with assms run i show ?thesis
        by (cases "rc = 0") (auto simp add: Let_def succeeded_def failed_with_def)
    next
      case (Raised e)
      with nf have "e \<noteq> FileNotFoundError" by (simp add: not_found_def)
      with assms run i Raised show ?thesis
        by (cases e) (auto simp add: Let_def succeeded_def failed_with_def)
    qed
    then obtain line where
      "png_loop env png_dir dds_dir rest (if succeeded i then c + 1 else c) (print line st1)
         = (r, st')"
      "\<forall>err. failed_with i = Some err \<longrightarrow>
         line = ''  [ERR] '' @ name @ '' - texconv error: '' @ err"
      by blast
    with run i nf show ?thesis
      by (intro continue [of r1 st1 i line]) auto
  qed
qed

lemma png_loop_log:
  "png_loop env png_dir dds_dir files c st = (r, st') \<Longrightarrow>
   log st' = log st @ new_calls st st'
     \<and> map argv (new_calls st st')
         = map (\<lambda>n. texconv_cmd dds_dir (png_dir, n)) (take (length (new_calls st st')) files)
     \<and> r = Inr (c + length (filter succeeded (new_calls st st')))
     \<and> (\<forall>i \<in> set (butlast (new_calls st st')). \<not> not_found i)
     \<and> (length (new_calls st st') < length files
          \<longrightarrow> new_calls st st' \<noteq> [] \<and> not_found (last (new_calls st st')))"
proof (induction files arbitrary: c st)
  case Nil
  then show ?case by auto
next
  case (Cons name rest)
  from Cons.prems show ?case
  proof (cases rule: png_loop_Cons_cases)
    case (abort st1 i)
    then have "new_calls st st' = [i]" by (simp add: new_calls_append)
    with abort show ?thesis by (simp add: succeeded_def not_found_def)
  next
    case (continue r1 st1 i line)
    let ?st2 = "print line st1"
    have l2: "log ?st2 = log st @ [i]" using continue(2) by simp
    from Cons.IH [OF continue(5)] have
      ih: "log st' = log ?st2 @ new_calls ?st2 st'"
        "map argv (new_calls ?st2 st')
           = map (\<lambda>n. texconv_cmd dds_dir (png_dir, n))
               (take (length (new_calls ?st2 st')) rest)"
        "r = Inr ((if succeeded i then c + 1 else c)
                  + length (filter succeeded (new_calls ?st2 st')))"
        "\<forall>i \<in> set (butlast (new_calls ?st2 st')). \<not> not_found i"
        "length (new_calls ?st2 st') < length rest
           \<longrightarrow> new_calls ?st2 st' \<noteq> [] \<and> not_found (last (new_calls ?st2 st'))"
      by blast+
    from new_calls_step [OF l2 ih(1)] ih continue(3,4) show ?thesis by auto
  qed
qed

lemma png_loop_err_lines:
  "png_loop env png_dir dds_dir files c st = (r, st') \<Longrightarrow>
   set (stdout st) \<subseteq> set (stdout st')
   \<and> (\<forall>i \<in> set (new_calls st st'). \<forall>err. failed_with i = Some err \<longrightarrow>
         (\<exists>n \<in> set files. argv i = texconv_cmd dds_dir (png_dir, n)
            \<and> ''  [ERR] '' @ n @ '' - texconv error: '' @ err \<in> set (stdout st')))"
proof (induction files arbitrary: c st)
  case Nil
  then show ?case by (auto simp add: new_calls_log)
next
  case (Cons name rest)
  from Cons.prems(1) show ?case
  proof (cases rule: png_loop_Cons_cases)
    case (abort st1 i)
    then have nc: "new_calls st st' = [i]" by (simp add: new_calls_append)
    with abort(3,8) show ?thesis by (simp add: failed_with_def not_found_def)
  next
    case (continue r1 st1 i line)
    let ?st2 = "print line st1"
    have l2: "log ?st2 = log st @ [i]" using continue(2) by simp
    from png_loop_log [OF continue(5)] have "log st' = log ?st2 @ new_calls ?st2 st'"
      by blast
    from new_calls_step [OF l2 this] have nc: "new_calls st st' = i # new_calls ?st2 st'"
      by blast
    have out: "stdout ?st2 = stdout st @ [line]"
      using subprocess_run_stdout [OF continue(1)] by simp
    from Cons.IH [OF continue(5)] out nc continue(4,6) show ?thesis by auto
  qed
qed

lemma png_loop_dir:
  "png_loop env png_dir dds_dir files c st = (r, st') \<Longrightarrow>
   (fs st' d = None) = (fs st d = None)"
proof (induction files arbitrary: c st)
  case Nil
  then show ?case by auto
next
  case (Cons name rest)
  from Cons.prems(1) show ?case
  proof (cases rule: png_loop_Cons_cases)
    case (abort st1 i)
    with subprocess_run_dir [OF abort(1), of d] show ?thesis by simp
  next
    case (continue r1 st1 i line)
    from Cons.IH [OF continue(5)] subprocess_run_dir [OF continue(1), of d]
    show ?thesis by simp
  qed
qed

lemma convert_pngs_to_dds_empty:
  "glob (fs st) png_dir ''.png'' = [] \<Longrightarrow>
   convert_pngs_to_dds env png_dir dds_dir st
     = (Inr 0, print (''No PNG files found in '' @ png_dir) (mkdir dds_dir st))"
  by (simp add: convert_pngs_to_dds_def)

lemma convert_pngs_to_dds_loop:
  "glob (fs st) png_dir ''.png'' \<noteq> [] \<Longrightarrow>
   convert_pngs_to_dds env png_dir dds_dir st
     = png_loop env png_dir dds_dir (glob (fs st) png_dir ''.png'') 0
         (print (''Converting '' @ str_nat (length (glob (fs st) png_dir ''.png''))
                 @ '' PNG files to DDS...'') (mkdir dds_dir st))"
  by (simp add: convert_pngs_to_dds_def Let_def)

lemma new_calls_from_print [simp]: "new_calls (print s st) st' = new_calls st st'"
  by (simp add: new_calls_def)

lemma stage2_calls:
  assumes "convert_pngs_to_dds env png_dir dds_dir st = (r, st')"
  shows "distinct (glob (fs st) png_dir ''.png'')
     \<and> map argv (new_calls st st')
         = map (\<lambda>n. texconv_cmd dds_dir (png_dir, n))
             (take (length (new_calls st st')) (glob (fs st) png_dir ''.png''))
     \<and> ((\<forall>i \<in> set (new_calls st st'). \<not> not_found i)
           \<longrightarrow> length (new_calls st st') = length (glob (fs st) png_dir ''.png''))
     \<and> (\<forall>i \<in> set (butlast (new_calls st st')). \<not> not_found i)
     \<and> (\<forall>i \<in> set (new_calls st st'). Lit ''-y'' \<in> set (argv i))"
proof (cases "glob (fs st) png_dir ''.png'' = []")
  case True
  from assms have "st' = print (''No PNG files found in '' @ png_dir) (mkdir dds_dir st)"
    by (simp add: convert_pngs_to_dds_empty [OF True])
  with True show ?thesis by (simp add: new_calls_log)
next
  case False
  let ?files = "glob (fs st) png_dir ''.png''"
  let ?st0 = "print (''Converting '' @ str_nat (length ?files) @ '' PNG files to DDS...'')
                (mkdir dds_dir st)"
  from assms convert_pngs_to_dds_loop [OF False]
  have loop: "png_loop env png_dir dds_dir ?files 0 ?st0 = (r, st')" by simp
  have nc: "new_calls ?st0 st' = new_calls st st'" by simp
  let ?new = "new_calls st st'"
  from png_loop_log [OF loop] nc have
    a: "map argv ?new = map (\<lambda>n. texconv_cmd dds_dir (png_dir, n)) (take (length ?new) ?files)"
    and b: "\<forall>i \<in> set (butlast ?new). \<not> not_found i"
    and c: "length ?new < length ?files \<longrightarrow> ?new \<noteq> [] \<and> not_found (last ?new)"
    by simp_all
  from arg_cong [OF a, of length] have len: "length ?new \<le> length ?files"
    by simp
  have d: "(\<forall>i \<in> set ?new. \<not> not_found i) \<longrightarrow> length ?new = length ?files"
  proof
    assume nf: "\<forall>i \<in> set ?new. \<not> not_found i"
    show "length ?new = length ?files"
    proof (rule ccontr)
      assume "length ?new \<noteq> length ?files"
      with len have "length ?new < length ?files" by simp
      with c have "?new \<noteq> []" "not_found (last ?new)" by simp_all
      with nf show False using last_in_set by blast
    qed
  qed
  have e: "\<forall>i \<in> set ?new. Lit ''-y'' \<in> set (argv i)"
  proof
    fix i assume "i \<in> set ?new"
    then have "argv i \<in> set (map argv ?new)" by simp
    with a have "argv i \<in> set (map (\<lambda>n. texconv_cmd dds_dir (png_dir, n))
                                 (take (length ?new) ?files))"
      by simp
    then show "Lit ''-y'' \<in> set (argv i)" by (auto simp add: texconv_cmd_def)
  qed
  from a b d e glob_distinct show ?thesis by blast
qed

section \<open>The loop of stage 3\<close>

lemma lookup_SomeD: "lookup f (d, n) = Some v \<Longrightarrow> f d \<noteq> None"
  by (auto simp add: lookup_def split: option.splits)

lemma copy2_Inl: "copy2 src dst st = (Inl e, st') \<Longrightarrow> st' = st"
  by (auto simp add: copy2_def split: option.splits node.splits if_splits)

lemma copy2_log_stdout:
  "copy2 src dst st = (r, st') \<Longrightarrow> log st' = log st \<and> stdout st' = stdout st"
  by (auto simp add: copy2_def split: option.splits node.splits if_splits)

lemma copy2_dir:
  "copy2 src dst st = (r, st') \<Longrightarrow> (fs st' d = None) = (fs st d = None)"
  by (auto simp add: copy2_def split: option.splits node.splits if_splits)

lemma copy2_other:
  "copy2 src dst st = (r, st') \<Longrightarrow> q \<noteq> dst \<Longrightarrow> lookup (fs st') q = lookup (fs st) q"
  by (auto simp add: copy2_def lookup_put split: option.splits node.splits if_splits)

lemma copy2_Inr:
  "copy2 (d, n) (d', n) st = (Inr u, st') \<Longrightarrow> d \<noteq> d' \<and> deployed (fs st) (fs st') d d' n"
  by (auto simp add: copy2_def lookup_put deployed_def exists_def update_conv'
           dest: lookup_SomeD split: option.splits node.splits if_splits)

lemma copy2_succeeds:
  "lookup (fs st) (d, n) = Some (File b m) \<Longrightarrow> d \<noteq> d' \<Longrightarrow> fs st d' \<noteq> None \<Longrightarrow>
   \<not> is_dir (fs st) (d', n) \<Longrightarrow>
   \<exists>st'. copy2 (d, n) (d', n) st = (Inr (), st')"
  by (auto simp add: copy2_def is_dir_def split: option.splits node.splits)

lemma deployed_cong:
  "lookup f1 (d, n) = lookup f (d, n) \<Longrightarrow> lookup f1' (d, n) = lookup f' (d, n) \<Longrightarrow>
   lookup f1 (d', n) = lookup f (d', n) \<Longrightarrow> lookup f1' (d', n) = lookup f' (d', n) \<Longrightarrow>
   deployed f1 f1' d d' n = deployed f f' d d' n"
  by (simp add: deployed_def cong: option.case_cong node.case_cong)

lemma copy_loop_effect:
  "copy_loop dds_dir mod_dir names c st = (r, st') \<Longrightarrow> distinct names \<Longrightarrow>
   \<exists>k. k \<le> length names
     \<and> stdout st' = stdout st @ map (\<lambda>n. ''  [OK] '' @ n @ '' (DDS)'') (take k names)
     \<and> (case r of Inr c' \<Rightarrow> k = length names \<and> c' = c + length names
                 | Inl e \<Rightarrow> k < length names)
     \<and> log st' = log st
     \<and> (0 < k \<longrightarrow> dds_dir \<noteq> mod_dir)
     \<and> (\<forall>n \<in> set (take k names). deployed (fs st) (fs st') dds_dir mod_dir n)
     \<and> (\<forall>q. q \<notin> (\<lambda>n. (mod_dir, n)) ` set (take k names)
            \<longrightarrow> lookup (fs st') q = lookup (fs st) q)
     \<and> (\<forall>d. (fs st' d = None) = (fs st d = None))"
proof (induction names arbitrary: c st)
  case Nil
  then show ?case by auto
next
  case (Cons n rest)
  obtain r1 st1 where c2: "copy2 (dds_dir, n) (mod_dir, n) st = (r1, st1)"
    by (cases "copy2 (dds_dir, n) (mod_dir, n) st")
  show ?case
  proof (cases r1)
    case (Inl e)
    with c2 Cons.prems(1) have "r = Inl e" "st' = st1" by simp_all
    with copy2_Inl c2 Inl have "r = Inl e" "st' = st" by auto
    then show ?thesis by (intro exI [of _ 0]) simp
  next
    case (Inr u)
    let ?line = "''  [OK] '' @ n @ '' (DDS)''"
    let ?st2 = "print ?line st1"
    from c2 Inr Cons.prems(1)
    have rec: "copy_loop dds_dir mod_dir rest (c + 1) ?st2 = (r, st')" by simp
    from Cons.prems(2) have dist: "distinct rest" and fresh: "n \<notin> set rest" by simp_all
    from c2 Inr copy2_Inr have ne: "dds_dir \<noteq> mod_dir"
      and dep: "deployed (fs st) (fs st1) dds_dir mod_dir n" by blast+
    have other1: "lookup (fs st1) q = lookup (fs st) q" if "q \<noteq> (mod_dir, n)" for q
      using copy2_other [OF c2 that] .
    from Cons.IH [OF rec dist] obtain k where
      k: "k \<le> length rest"
        "stdout st' = stdout ?st2 @ map (\<lambda>n. ''  [OK] '' @ n @ '' (DDS)'') (take k rest)"
        "case r of Inr c' \<Rightarrow> k = length rest \<and> c' = c + 1 + length rest
                 | Inl e \<Rightarrow> k < length rest"
        "log st' = log ?st2"
        "\<forall>n \<in> set (take k rest). deployed (fs ?st2) (fs st') dds_dir mod_dir n"
        "\<forall>q. q \<notin> (\<lambda>n. (mod_dir, n)) ` set (take k rest)
            \<longrightarrow> lookup (fs st') q = lookup (fs ?st2) q"
        "\<forall>d. (fs st' d = None) = (fs ?st2 d = None)"
      by blast
    have notin: "n \<notin> set (take k rest)" using fresh by (auto dest: in_set_takeD)
    have other2: "lookup (fs st') q = lookup (fs st1) q"
      if "q \<notin> (\<lambda>n. (mod_dir, n)) ` set (take k rest)" for q
    proof -
      from k(6) that have "lookup (fs st') q = lookup (fs ?st2) q" by blast
      then show ?thesis by simp
    qed
    have a: "Suc k \<le> length (n # rest)" using k(1) by simp
    have b: "stdout st' = stdout st
               @ map (\<lambda>n. ''  [OK] '' @ n @ '' (DDS)'') (take (Suc k) (n # rest))"
      using k(2) copy2_log_stdout [OF c2] by simp
    have c': "case r of Inr c' \<Rightarrow> Suc k = length (n # rest) \<and> c' = c + length (n # rest)
                 | Inl e \<Rightarrow> Suc k < length (n # rest)"
      using k(3) by (simp split: sum.splits)
    have d: "log st' = log st" using k(4) copy2_log_stdout [OF c2] by simp
    have e: "deployed (fs st) (fs st') dds_dir mod_dir m" if "m \<in> set (take (Suc k) (n # rest))"
      for m
    proof (cases "m = n")
      case True
      have "lookup (fs st') (dds_dir, n) = lookup (fs st1) (dds_dir, n)"
        using ne by (intro other2) auto
      moreover have "lookup (fs st') (mod_dir, n) = lookup (fs st1) (mod_dir, n)"
        using notin by (intro other2) auto
      ultimately have "deployed (fs st) (fs st') dds_dir mod_dir n
                       = deployed (fs st) (fs st1) dds_dir mod_dir n"
        by (intro deployed_cong) simp_all
      with dep True show ?thesis by simp
    next
      case False
      with that have m: "m \<in> set (take k rest)" by simp
      have "lookup (fs st1) (dds_dir, m) = lookup (fs st) (dds_dir, m)"
        using ne by (intro other1) simp
      moreover have "lookup (fs st1) (mod_dir, m) = lookup (fs st) (mod_dir, m)"
        using False by (intro other1) simp
      ultimately have "deployed (fs st) (fs st') dds_dir mod_dir m
                       = deployed (fs ?st2) (fs st') dds_dir mod_dir m"
        by (intro deployed_cong) simp_all
      with k(5) m show ?thesis by simp
    qed
    have f: "lookup (fs st') q = lookup (fs st) q"
      if "q \<notin> (\<lambda>n. (mod_dir, n)) ` set (take (Suc k) (n # rest))" for q
    proof -
      from that have "q \<noteq> (mod_dir, n)" "q \<notin> (\<lambda>n. (mod_dir, n)) ` set (take k rest)"
        by auto
      with other1 other2 show ?thesis by simp
    qed
    have g: "(fs st' x = None) = (fs st x = None)" for x
      using k(7) copy2_dir [OF c2, of x] by simp
    from a b c' d e f g ne show ?thesis
      by (intro exI [of _ "Suc k"]) blast
  qed
qed

lemma copy_loop_total:
  "distinct names \<Longrightarrow> dds_dir \<noteq> mod_dir \<Longrightarrow> fs st mod_dir \<noteq> None \<Longrightarrow>
   \<forall>n \<in> set names. (\<exists>b m. lookup (fs st) (dds_dir, n) = Some (File b m))
                     \<and> \<not> is_dir (fs st) (mod_dir, n) \<Longrightarrow>
   \<exists>st'. copy_loop dds_dir mod_dir names c st = (Inr (c + length names), st')"
proof (induction names arbitrary: c st)
  case Nil
  then show ?case by simp
next
  case (Cons n rest)
  from Cons.prems(4) obtain b m where src: "lookup (fs st) (dds_dir, n) = Some (File b m)"
    and dst: "\<not> is_dir (fs st) (mod_dir, n)" by auto
  from copy2_succeeds [OF src Cons.prems(2,3) dst]
  obtain st1 where c2: "copy2 (dds_dir, n) (mod_dir, n) st = (Inr (), st1)" by blast
  let ?st2 = "print (''  [OK] '' @ n @ '' (DDS)'') st1"
  have other: "lookup (fs ?st2) q = lookup (fs st) q" if "q \<noteq> (mod_dir, n)" for q
    using copy2_other [OF c2 that] by simp
  from Cons.prems(1) have dist: "distinct rest" and fresh: "n \<notin> set rest" by simp_all
  have dir: "fs ?st2 mod_dir \<noteq> None" using copy2_dir [OF c2, of mod_dir] Cons.prems(3) by simp
  have "\<forall>x \<in> set rest. (\<exists>b m. lookup (fs ?st2) (dds_dir, x) = Some (File b m))
                     \<and> \<not> is_dir (fs ?st2) (mod_dir, x)"
  proof
    fix x assume x: "x \<in> set rest"
    with fresh have "x \<noteq> n" by auto
    then have "lookup (fs ?st2) (mod_dir, x) = lookup (fs st) (mod_dir, x)"
      by (intro other) simp
    moreover have "lookup (fs ?st2) (dds_dir, x) = lookup (fs st) (dds_dir, x)"
      using Cons.prems(2) by (intro other) simp
    ultimately show "(\<exists>b m. lookup (fs ?st2) (dds_dir, x) = Some (File b m))
                     \<and> \<not> is_dir (fs ?st2) (mod_dir, x)"
      using Cons.prems(4) x by (simp add: is_dir_def)
  qed
  from Cons.IH [OF dist Cons.prems(2) dir this, of "c + 1"] c2 show ?case by simp
qed

lemma new_lines_append: "stdout st' = stdout st @ ls \<Longrightarrow> new_lines st st' = ls"
  by (simp add: new_lines_def)

lemma copy_to_mod_folder_loop:
  "copy_to_mod_folder png_dir dds_dir mod_dir st
     = copy_loop dds_dir mod_dir (glob (fs st) dds_dir ''.dds'') 0
         (print ([char_of (10::nat)] @ ''Copying files to mod folder: '' @ mod_dir)
            (mkdir mod_dir st))"
  by (simp add: copy_to_mod_folder_def Let_def)

lemma stage3_effect:
  assumes "copy_to_mod_folder png_dir dds_dir mod_dir st = (r, st')"
  shows "\<exists>k. k \<le> length (glob (fs st) dds_dir ''.dds'')
     \<and> new_lines st st' =
         ([char_of (10::nat)] @ ''Copying files to mod folder: '' @ mod_dir)
         # map (\<lambda>n. ''  [OK] '' @ n @ '' (DDS)'') (take k (glob (fs st) dds_dir ''.dds''))
     \<and> (case r of Inr c' \<Rightarrow> k = length (glob (fs st) dds_dir ''.dds'') \<and> c' = k
                 | Inl e \<Rightarrow> k < length (glob (fs st) dds_dir ''.dds''))
     \<and> log st' = log st
     \<and> (\<forall>n \<in> set (take k (glob (fs st) dds_dir ''.dds'')).
           deployed (fs st) (fs st') dds_dir mod_dir n)
     \<and> (\<forall>q. q \<notin> (\<lambda>n. (mod_dir, n)) ` set (take k (glob (fs st) dds_dir ''.dds''))
            \<longrightarrow> lookup (fs st') q = lookup (fs st) q)"
proof -
  let ?files = "glob (fs st) dds_dir ''.dds''"
  let ?head = "[char_of (10::nat)] @ ''Copying files to mod folder: '' @ mod_dir"
  let ?st0 = "print ?head (mkdir mod_dir st)"
  from assms have loop: "copy_loop dds_dir mod_dir ?files 0 ?st0 = (r, st')"
    by (simp add: copy_to_mod_folder_loop)
  from copy_loop_effect [OF loop glob_distinct] obtain k where
    k: "k \<le> length ?files"
      "stdout st' = stdout ?st0 @ map (\<lambda>n. ''  [OK] '' @ n @ '' (DDS)'') (take k ?files)"
      "case r of Inr c' \<Rightarrow> k = length ?files \<and> c' = 0 + length ?files
               | Inl e \<Rightarrow> k < length ?files"
      "log st' = log ?st0"
      "\<forall>n \<in> set (take k ?files). deployed (fs ?st0) (fs st') dds_dir mod_dir n"
      "\<forall>q. q \<notin> (\<lambda>n. (mod_dir, n)) ` set (take k ?files)
            \<longrightarrow> lookup (fs st') q = lookup (fs ?st0) q"
    by blast
  have a: "new_lines st st' = ?head # map (\<lambda>n. ''  [OK] '' @ n @ '' (DDS)'') (take k ?files)"
    using k(2) by (intro new_lines_append) simp
  have b: "case r of Inr c' \<Rightarrow> k = length ?files \<and> c' = k | Inl e \<Rightarrow> k < length ?files"
    using k(3) by (simp split: sum.splits)
  have c: "log st' = log st" using k(4) by simp
  have d: "\<forall>n \<in> set (take k ?files). deployed (fs st) (fs st') dds_dir mod_dir n"
  proof
    fix n assume "n \<in> set (take k ?files)"
    with k(5) have "deployed (fs ?st0) (fs st') dds_dir mod_dir n" by blast
    moreover have "deployed (fs ?st0) (fs st') dds_dir mod_dir n
                   = deployed (fs st) (fs st') dds_dir mod_dir n"
      by (intro deployed_cong) simp_all
    ultimately show "deployed (fs st) (fs st') dds_dir mod_dir n" by simp
  qed
  have e: "\<forall>q. q \<notin> (\<lambda>n. (mod_dir, n)) ` set (take k ?files)
            \<longrightarrow> lookup (fs st') q = lookup (fs st) q"
    using k(6) by simp
  from k(1) a b c d e show ?thesis by blast
qed

lemma deployedD:
  assumes "deployed f f' d d' n"
  shows "\<exists>b m. lookup f (d, n) = Some (File b m) \<and> lookup f' (d, n) = Some (File b m)
     \<and> (\<not> is_dir f (d', n) \<longrightarrow> lookup f' (d', n) = Some (File b m))
     \<and> (\<forall>inner. lookup f (d', n) = Some (Dir inner) \<longrightarrow>
          (\<exists>inner'. lookup f' (d', n) = Some (Dir inner')
             \<and> map_of inner' n = Some (File b m)))"
proof -
  from assms obtain b m where src: "lookup f (d, n) = Some (File b m)"
    by (auto simp add: deployed_def split: option.splits node.splits)
  with assms have same: "lookup f' (d, n) = Some (File b m)"
    and dst: "case lookup f (d', n) of
                Some (Dir inner) \<Rightarrow>
                  (case lookup f' (d', n) of
                     Some (Dir inner') \<Rightarrow> map_of inner' n = Some (File b m)
                   | _ \<Rightarrow> False)
              | _ \<Rightarrow> lookup f' (d', n) = Some (File b m)"
    by (simp_all add: deployed_def)
  have one: "\<not> is_dir f (d', n) \<longrightarrow> lookup f' (d', n) = Some (File b m)"
    using dst by (auto simp add: is_dir_def split: option.splits node.splits)
  have two: "\<forall>inner. lookup f (d', n) = Some (Dir inner) \<longrightarrow>
          (\<exists>inner'. lookup f' (d', n) = Some (Dir inner')
             \<and> map_of inner' n = Some (File b m))"
    using dst by (auto split: option.splits node.splits)
  from src same one two show ?thesis by blast
qed

lemma lookup_upd_other: "fst q \<noteq> p \<Longrightarrow> lookup (f(p := x)) q = lookup f q"
  by (simp add: lookup_def)

lemma exists_upd_other: "fst q \<noteq> p \<Longrightarrow> exists (f(p := x)) q = exists f q"
  by (simp add: exists_def lookup_upd_other)

lemma put_upd_other: "fst q \<noteq> p \<Longrightarrow> put q v (f(p := x)) = (put q v f)(p := x)"
  by (auto simp add: put_def fun_upd_twist split: option.split)

lemma glob_upd_other: "d \<noteq> p \<Longrightarrow> glob (f(p := x)) d ext = glob f d ext"
  by (simp add: glob_def)

lemma print_frame: "print s (st\<lparr>fs := f\<rparr>) = (print s st)\<lparr>fs := f\<rparr>"
  by (simp add: print_def)

lemma mkdir_frame:
  "d \<noteq> p \<Longrightarrow>
   mkdir d (st\<lparr>fs := (fs st)(p := x)\<rparr>) = (mkdir d st)\<lparr>fs := (fs (mkdir d st))(p := x)\<rparr>"
  by (auto simp add: mkdir_def fun_upd_twist split: option.split)

lemma copy2_frame:
  assumes "fst src \<noteq> p" "fst dst \<noteq> p" "copy2 src dst st = (r, st')"
  shows "copy2 src dst (st\<lparr>fs := (fs st)(p := x)\<rparr>) = (r, st'\<lparr>fs := (fs st')(p := x)\<rparr>)"
  using assms
  by (auto simp add: copy2_def lookup_upd_other exists_upd_other put_upd_other
           split: option.splits node.splits if_splits)

lemma copy_loop_frame:
  "dds_dir \<noteq> p \<Longrightarrow> mod_dir \<noteq> p \<Longrightarrow> copy_loop dds_dir mod_dir names c st = (r, st') \<Longrightarrow>
   copy_loop dds_dir mod_dir names c (st\<lparr>fs := (fs st)(p := x)\<rparr>)
     = (r, st'\<lparr>fs := (fs st')(p := x)\<rparr>)"
proof (induction names arbitrary: c st)
  case Nil
  then show ?case by auto
next
  case (Cons n rest)
  obtain r1 st1 where c2: "copy2 (dds_dir, n) (mod_dir, n) st = (r1, st1)"
    by (cases "copy2 (dds_dir, n) (mod_dir, n) st")
  from Cons.prems(1,2) have
    c2': "copy2 (dds_dir, n) (mod_dir, n) (st\<lparr>fs := (fs st)(p := x)\<rparr>)
            = (r1, st1\<lparr>fs := (fs st1)(p := x)\<rparr>)"
    by (intro copy2_frame [OF _ _ c2]) simp_all
  show ?case
  proof (cases r1)
    case (Inl e)
    with c2 Cons.prems(3) have "r = Inl e" "st' = st1" by simp_all
    with Inl show ?thesis unfolding copy_loop.simps(2) c2' by (simp add: fun_upd_def)
  next
    case (Inr u)
    let ?st2 = "print (''  [OK] '' @ n @ '' (DDS)'') st1"
    from c2 Inr Cons.prems(3)
    have rec: "copy_loop dds_dir mod_dir rest (c + 1) ?st2 = (r, st')" by simp
    from Cons.IH [OF Cons.prems(1,2) rec]
    have "copy_loop dds_dir mod_dir rest (c + 1) (?st2\<lparr>fs := (fs ?st2)(p := x)\<rparr>)
            = (r, st'\<lparr>fs := (fs st')(p := x)\<rparr>)" .
    with Inr show ?thesis unfolding copy_loop.simps(2) c2' by (simp add: print_frame fun_upd_def)
  qed
qed

section \<open>The stages return\<close>

lemma mkdir_is_dir [simp]: "is_dir (fs (mkdir d st)) q = is_dir (fs st) q"
  by (simp add: is_dir_def)

lemma svg_loop_is_dir:
  "svg_loop env svg_dir png_dir files c k st = (r, st') \<Longrightarrow>
   is_dir (fs st') q = is_dir (fs st) q"
proof (induction files arbitrary: c k st)
  case Nil
  then show ?case by (auto split: if_splits)
next
  case (Cons name rest)
  from Cons.prems(1) show ?case
  proof (cases rule: svg_loop_Cons_cases)
    case skip
    from Cons.IH [OF skip(2)] show ?thesis .
  next
    case (abort st1 i)
    with subprocess_run_is_dir [OF abort(2), of q] show ?thesis by simp
  next
    case (continue r1 st1 i line)
    from Cons.IH [OF continue(6)] subprocess_run_is_dir [OF continue(2), of q]
    show ?thesis by simp
  qed
qed

lemma png_loop_is_dir:
  "png_loop env png_dir dds_dir files c st = (r, st') \<Longrightarrow>
   is_dir (fs st') q = is_dir (fs st) q"
proof (induction files arbitrary: c st)
  case Nil
  then show ?case by auto
next
  case (Cons name rest)
  from Cons.prems(1) show ?case
  proof (cases rule: png_loop_Cons_cases)
    case (abort st1 i)
    with subprocess_run_is_dir [OF abort(1), of q] show ?thesis by simp
  next
    case (continue r1 st1 i line)
    from Cons.IH [OF continue(5)] subprocess_run_is_dir [OF continue(1), of q]
    show ?thesis by simp
  qed
qed

lemma stage1_returns:
  "\<exists>n st'. convert_svgs_to_pngs env svg_dir png_dir st = (Inr n, st')
      \<and> (\<forall>q. is_dir (fs st') q = is_dir (fs st) q)"
proof (cases "glob (fs st) svg_dir ''.svg'' = []")
  case True
  then show ?thesis by (simp add: convert_svgs_to_pngs_empty)
next
  case False
  obtain r st' where loop:
    "svg_loop env svg_dir png_dir (glob (fs st) svg_dir ''.svg'') 0 0
       (mkdir png_dir (mkdir svg_dir st)) = (r, st')"
    by (cases "svg_loop env svg_dir png_dir (glob (fs st) svg_dir ''.svg'') 0 0
                 (mkdir png_dir (mkdir svg_dir st))")
  from svg_loop_log [OF loop] obtain n where "r = Inr n" by blast
  with loop svg_loop_is_dir [OF loop] show ?thesis
    by (simp add: convert_svgs_to_pngs_loop [OF False])
qed

lemma stage2_returns:
  "\<exists>n st'. convert_pngs_to_dds env png_dir dds_dir st = (Inr n, st')
      \<and> (\<forall>q. is_dir (fs st') q = is_dir (fs st) q)"
proof (cases "glob (fs st) png_dir ''.png'' = []")
  case True
  then show ?thesis by (simp add: convert_pngs_to_dds_empty)
next
  case False
  let ?files = "glob (fs st) png_dir ''.png''"
  let ?st0 = "print (''Converting '' @ str_nat (length ?files) @ '' PNG files to DDS...'')
                (mkdir dds_dir st)"
  obtain r st' where loop: "png_loop env png_dir dds_dir ?files 0 ?st0 = (r, st')"
    by (cases "png_loop env png_dir dds_dir ?files 0 ?st0")
  from png_loop_log [OF loop] obtain n where "r = Inr n" by blast
  with loop png_loop_is_dir [OF loop] show ?thesis
    by (simp add: convert_pngs_to_dds_loop [OF False])
qed

lemma file_or_dir:
  "exists f q \<Longrightarrow> \<not> is_dir f q \<Longrightarrow> \<exists>b m. lookup f q = Some (File b m)"
  by (auto simp add: exists_def is_dir_def split: option.splits node.splits)

lemma stage3_returns:
  assumes "dds_dir \<noteq> mod_dir"
      and "\<forall>n. ends_with ''.dds'' n \<longrightarrow>
             \<not> is_dir (fs st) (dds_dir, n) \<and> \<not> is_dir (fs st) (mod_dir, n)"
  shows "\<exists>c st'. copy_to_mod_folder png_dir dds_dir mod_dir st = (Inr c, st')"
proof -
  let ?files = "glob (fs st) dds_dir ''.dds''"
  let ?st0 = "print ([char_of (10::nat)] @ ''Copying files to mod folder: '' @ mod_dir)
                (mkdir mod_dir st)"
  have dir: "fs ?st0 mod_dir \<noteq> None" by simp
  have ok: "\<forall>n \<in> set ?files.
              (\<exists>b m. lookup (fs ?st0) (dds_dir, n) = Some (File b m))
              \<and> \<not> is_dir (fs ?st0) (mod_dir, n)"
  proof
    fix n assume "n \<in> set ?files"
    then have n: "ends_with ''.dds'' n" "exists (fs st) (dds_dir, n)"
      by (simp_all add: glob_set)
    with assms(2) have nd: "\<not> is_dir (fs st) (dds_dir, n)" "\<not> is_dir (fs st) (mod_dir, n)"
      by blast+
    from file_or_dir [OF n(2) nd(1)] nd(2)
    show "(\<exists>b m. lookup (fs ?st0) (dds_dir, n) = Some (File b m))
              \<and> \<not> is_dir (fs ?st0) (mod_dir, n)"
      by simp
  qed
  from copy_loop_total [OF glob_distinct assms(1) dir ok, of 0]
  show ?thesis by (auto simp add: copy_to_mod_folder_loop)
qed

section \<open>The loops by the outcome of each launch\<close>

text \<open>
  One step of each loop, written with the outcome that \<open>subprocess_run\<close> got from
  the tool and recorded.
\<close>

lemma prints_simps [simp]:
  "fs (prints ls st) = fs st"
  "log (prints ls st) = log st"
  "stdout (prints ls st) = stdout st @ ls"
  by (simp_all add: prints_def)

lemma print_prints: "print l st = prints [l] st"
  by (simp add: print_def prints_def)

lemma prints_prints: "prints ls (prints ks st) = prints (ks @ ls) st"
  by (simp add: prints_def)

lemma new_calls_prints [simp]: "new_calls st (prints ls st') = new_calls st st'"
  by (simp add: new_calls_def)

lemma new_calls_from_prints [simp]: "new_calls (prints ls st) st' = new_calls st st'"
  by (simp add: new_calls_def)

lemma subprocess_run_env:
  "subprocess_run env args st = (r, st1) \<Longrightarrow> log st1 = log st @ [i] \<Longrightarrow>
   env (log st) (fs st) args = (result i, written i)"
  by (auto simp add: subprocess_run_def Let_def split: prod.splits)

lemma subprocess_run_result:
  "subprocess_run env args st = (r, st1) \<Longrightarrow> log st1 = log st @ [i] \<Longrightarrow>
   argv i = args
   \<and> r = (case result i of Completed rc err \<Rightarrow> Inr (rc, err) | Raised e \<Rightarrow> Inl e)"
  by (auto simp add: subprocess_run_def Let_def split: prod.splits)

lemma subprocess_run_ex:
  "\<exists>r st1 i. subprocess_run env args st = (r, st1) \<and> log st1 = log st @ [i]"
  by (auto simp add: subprocess_run_def Let_def split: prod.splits)

lemma svg_loop_step:
  assumes "\<not> exists (fs st) (png_dir, stem n @ ''.png'')"
      and "subprocess_run env (magick_cmd (svg_dir, n) (png_dir, stem n @ ''.png'')) st
             = (r1, st1)"
      and "log st1 = log st @ [i]"
  shows "svg_loop env svg_dir png_dir (n # rest) c k st =
           (if result i = Raised FileNotFoundError
            then (Inr c, prints (report1 n (result i)) st1)
            else svg_loop env svg_dir png_dir rest (if zero_exit (result i) then c + 1 else c) k
                   (prints (report1 n (result i)) st1))"
proof -
  from subprocess_run_result [OF assms(2,3)]
  have r1: "r1 = (case result i of Completed rc err \<Rightarrow> Inr (rc, err) | Raised e \<Rightarrow> Inl e)"
    by blast
  show ?thesis
  proof (cases "result i")
    case (Completed rc err)
    with assms(1,2) r1 show ?thesis
      by (simp add: Let_def zero_exit_def print_prints)
  next
    case (Raised e)
    with assms(1,2) r1 show ?thesis
      by (cases e) (simp_all add: Let_def zero_exit_def print_prints prints_prints)
  qed
qed

lemma png_loop_step:
  assumes "subprocess_run env (texconv_cmd dds_dir (png_dir, n)) st = (r1, st1)"
      and "log st1 = log st @ [i]"
  shows "png_loop env png_dir dds_dir (n # rest) c st =
           (if result i = Raised FileNotFoundError
            then (Inr c, prints (report2 n (result i)) st1)
            else png_loop env png_dir dds_dir rest (if zero_exit (result i) then c + 1 else c)
                   (prints (report2 n (result i)) st1))"
proof -
  from subprocess_run_result [OF assms(1,2)]
  have r1: "r1 = (case result i of Completed rc err \<Rightarrow> Inr (rc, err) | Raised e \<Rightarrow> Inl e)"
    by blast
  show ?thesis
  proof (cases "result i")
    case (Completed rc err)
    with assms(1) r1 show ?thesis
      by (simp add: Let_def zero_exit_def print_prints)
  next
    case (Raised e)
    with assms(1) r1 show ?thesis
      by (cases e) (simp_all add: Let_def zero_exit_def print_prints prints_prints)
  qed
qed

text \<open>
  When the outcome of a launch is a function \<open>out\<close> of its command line, a loop
  launches \<open>attempted\<close>, returns \<open>completed\<close> and prints the report of each
  launch.
\<close>

lemma png_loop_by_outcome:
  assumes H: "\<forall>h f a. fst (env h f a) = out a"
      and res: "res = (\<lambda>n. out (texconv_cmd dds_dir (png_dir, n)))"
  shows "\<exists>st'. png_loop env png_dir dds_dir names c st = (Inr (c + completed res names), st')
      \<and> map argv (new_calls st st')
          = map (\<lambda>n. texconv_cmd dds_dir (png_dir, n)) (attempted res names)
      \<and> map result (new_calls st st') = map res (attempted res names)
      \<and> log st' = log st @ new_calls st st'
      \<and> stdout st' = stdout st @ concat (map (\<lambda>n. report2 n (res n)) (attempted res names))"
proof (induction names arbitrary: c st)
  case Nil
  show ?case by simp
next
  case (Cons n rest)
  let ?cmd = "texconv_cmd dds_dir (png_dir, n)"
  from subprocess_run_ex [of env ?cmd st] obtain r1 st1 i where
    run: "subprocess_run env ?cmd st = (r1, st1)" and lg: "log st1 = log st @ [i]"
    by blast
  from subprocess_run_env [OF run lg] H have ri: "result i = res n"
    by (metis fst_conv res)
  from subprocess_run_result [OF run lg] have ai: "argv i = ?cmd" by blast
  note step = png_loop_step [OF run lg, where rest = rest and c = c]
  let ?st2 = "prints (report2 n (res n)) st1"
  have l2: "log ?st2 = log st @ [i]" using lg by simp
  have o2: "stdout ?st2 = stdout st @ report2 n (res n)"
    using subprocess_run_stdout [OF run] by simp
  show ?case
  proof (cases "res n = Raised FileNotFoundError")
    case True
    with step ri have eq: "png_loop env png_dir dds_dir (n # rest) c st = (Inr c, ?st2)"
      by simp
    have nc: "new_calls st ?st2 = [i]" using l2 by (simp add: new_calls_def)
    from True eq nc ai ri l2 o2 show ?thesis by simp
  next
    case False
    let ?c' = "if zero_exit (res n) then c + 1 else c"
    from step ri False
    have eq: "png_loop env png_dir dds_dir (n # rest) c st
                = png_loop env png_dir dds_dir rest ?c' ?st2"
      by simp
    from Cons.IH [of ?c' ?st2] obtain st' where
      ih: "png_loop env png_dir dds_dir rest ?c' ?st2 = (Inr (?c' + completed res rest), st')"
        "map argv (new_calls ?st2 st')
          = map (\<lambda>n. texconv_cmd dds_dir (png_dir, n)) (attempted res rest)"
        "map result (new_calls ?st2 st') = map res (attempted res rest)"
        "log st' = log ?st2 @ new_calls ?st2 st'"
        "stdout st' = stdout ?st2
           @ concat (map (\<lambda>n. report2 n (res n)) (attempted res rest))"
      by blast
    from new_calls_step [OF l2 ih(4)]
    have nc: "new_calls st st' = i # new_calls ?st2 st'"
      and lg': "log st' = log st @ new_calls st st'" by blast+
    have a: "png_loop env png_dir dds_dir (n # rest) c st
               = (Inr (c + completed res (n # rest)), st')"
      using eq ih(1) False by simp
    have b: "map argv (new_calls st st')
          = map (\<lambda>n. texconv_cmd dds_dir (png_dir, n)) (attempted res (n # rest))"
      using nc ih(2) ai False by simp
    have d: "map result (new_calls st st') = map res (attempted res (n # rest))"
      using nc ih(3) ri False by simp
    have e: "stdout st' = stdout st
               @ concat (map (\<lambda>n. report2 n (res n)) (attempted res (n # rest)))"
      using ih(5) o2 False by simp
    from a b d lg' e show ?thesis by blast
  qed
qed

lemma svg_loop_by_outcome:
  assumes H: "\<forall>h f a. fst (env h f a) = out a"
      and res: "res = (\<lambda>n. out (magick_cmd (svg_dir, n) (png_dir, stem n @ ''.png'')))"
  shows "distinct (map stem (filter (\<lambda>n. \<not> exists (fs st) (png_dir, stem n @ ''.png'')) names))
    \<Longrightarrow>
    \<exists>st'. svg_loop env svg_dir png_dir names c k st
            = (Inr (c + completed res
                  (filter (\<lambda>n. \<not> exists (fs st) (png_dir, stem n @ ''.png'')) names)), st')
      \<and> map argv (new_calls st st')
          = map (\<lambda>n. magick_cmd (svg_dir, n) (png_dir, stem n @ ''.png''))
              (attempted res
                 (filter (\<lambda>n. \<not> exists (fs st) (png_dir, stem n @ ''.png'')) names))
      \<and> map result (new_calls st st')
          = map res (attempted res
                 (filter (\<lambda>n. \<not> exists (fs st) (png_dir, stem n @ ''.png'')) names))
      \<and> log st' = log st @ new_calls st st'
      \<and> stdout st' = stdout st
          @ concat (map (\<lambda>n. report1 n (res n))
              (attempted res
                 (filter (\<lambda>n. \<not> exists (fs st) (png_dir, stem n @ ''.png'')) names)))
          @ (if Raised FileNotFoundError
                  \<in> res ` set (filter (\<lambda>n. \<not> exists (fs st) (png_dir, stem n @ ''.png''))
                                  names)
             then []
             else if 0 < k + (length names
                    - length (filter (\<lambda>n. \<not> exists (fs st) (png_dir, stem n @ ''.png''))
                                names))
             then [''  Skipped ''
                   @ str_nat (k + (length names
                        - length (filter (\<lambda>n. \<not> exists (fs st) (png_dir, stem n @ ''.png''))
                                    names)))
                   @ '' SVGs (PNGs already exist)'']
             else [])"
proof (induction names arbitrary: c k st)
  case Nil
  show ?case by simp
next
  case (Cons n rest)
  let ?P = "\<lambda>s m. \<not> exists (fs s) (png_dir, stem m @ ''.png'')"
  show ?case
  proof (cases "exists (fs st) (png_dir, stem n @ ''.png'')")
    case True
    then have pend: "filter (?P st) (n # rest) = filter (?P st) rest" by simp
    from Cons.prems have dist: "distinct (map stem (filter (?P st) rest))"
      unfolding pend .
    have eq: "svg_loop env svg_dir png_dir (n # rest) c k st
                = svg_loop env svg_dir png_dir rest c (k + 1) st"
      using True by (simp add: Let_def)
    have len: "k + 1 + (length rest - length (filter (?P st) rest))
               = k + (length (n # rest) - length (filter (?P st) rest))"
      using length_filter_le [of "?P st" rest] by (simp add: Suc_diff_le)
    from Cons.IH [OF dist, of c "k + 1"] show ?thesis
      unfolding pend eq len .
  next
    case False
    then have pend: "filter (?P st) (n # rest) = n # filter (?P st) rest" by simp
    let ?cmd = "magick_cmd (svg_dir, n) (png_dir, stem n @ ''.png'')"
    from subprocess_run_ex [of env ?cmd st] obtain r1 st1 i where
      run: "subprocess_run env ?cmd st = (r1, st1)" and lg: "log st1 = log st @ [i]"
      by blast
    from subprocess_run_env [OF run lg] H have ri: "result i = res n"
      by (metis fst_conv res)
    from subprocess_run_result [OF run lg] have ai: "argv i = ?cmd" by blast
    note step = svg_loop_step [OF False run lg, where rest = rest and c = c and k = k]
    let ?st2 = "prints (report1 n (res n)) st1"
    have l2: "log ?st2 = log st @ [i]" using lg by simp
    have o2: "stdout ?st2 = stdout st @ report1 n (res n)"
      using subprocess_run_stdout [OF run] by simp
    show ?thesis
    proof (cases "res n = Raised FileNotFoundError")
      case True
      with step ri have eq: "svg_loop env svg_dir png_dir (n # rest) c k st = (Inr c, ?st2)"
        by simp
      have nc: "new_calls st ?st2 = [i]" using l2 by (simp add: new_calls_def)
      from True eq nc ai ri l2 o2 show ?thesis unfolding pend by simp
    next
      case nf: False
      let ?c' = "if zero_exit (res n) then c + 1 else c"
      from step ri nf
      have eq: "svg_loop env svg_dir png_dir (n # rest) c k st
                  = svg_loop env svg_dir png_dir rest ?c' k ?st2"
        by simp
      have same: "?P ?st2 m = ?P st m" if "m \<in> set rest" for m
      proof (cases "exists (fs st) (png_dir, stem m @ ''.png'')")
        case True
        with subprocess_run_exists [OF run] show ?thesis by simp
      next
        case nx: False
        with that have "m \<in> set (filter (?P st) rest)" by simp
        then have "stem m \<in> stem ` set (filter (?P st) rest)" by (rule imageI)
        moreover from Cons.prems have "stem n \<notin> stem ` set (filter (?P st) rest)"
          unfolding pend by simp
        ultimately have "stem m \<noteq> stem n" by metis
        then have "target ?cmd \<noteq> Some (png_dir, stem m @ ''.png'')" by simp
        from subprocess_run_other [OF run this] nx show ?thesis by (simp add: exists_def)
      qed
      then have filt: "filter (?P ?st2) rest = filter (?P st) rest"
        by (intro filter_cong) auto
      from Cons.prems have dist: "distinct (map stem (filter (?P ?st2) rest))"
        unfolding pend filt by simp
      from Cons.IH [OF dist, of ?c' k] obtain st' where
        ih: "svg_loop env svg_dir png_dir rest ?c' k ?st2
               = (Inr (?c' + completed res (filter (?P st) rest)), st')"
          "map argv (new_calls ?st2 st')
            = map (\<lambda>n. magick_cmd (svg_dir, n) (png_dir, stem n @ ''.png''))
                (attempted res (filter (?P st) rest))"
          "map result (new_calls ?st2 st') = map res (attempted res (filter (?P st) rest))"
          "log st' = log ?st2 @ new_calls ?st2 st'"
          "stdout st' = stdout ?st2
             @ concat (map (\<lambda>n. report1 n (res n)) (attempted res (filter (?P st) rest)))
             @ (if Raised FileNotFoundError \<in> res ` set (filter (?P st) rest) then []
                else if 0 < k + (length rest - length (filter (?P st) rest))
                then [''  Skipped ''
                      @ str_nat (k + (length rest - length (filter (?P st) rest)))
                      @ '' SVGs (PNGs already exist)'']
                else [])"
        unfolding filt by blast
      from new_calls_step [OF l2 ih(4)]
      have nc: "new_calls st st' = i # new_calls ?st2 st'"
        and lg': "log st' = log st @ new_calls st st'" by blast+
      have a: "svg_loop env svg_dir png_dir (n # rest) c k st
                 = (Inr (c + completed res (n # filter (?P st) rest)), st')"
        using eq ih(1) nf by simp
      have b: "map argv (new_calls st st')
            = map (\<lambda>n. magick_cmd (svg_dir, n) (png_dir, stem n @ ''.png''))
                (attempted res (n # filter (?P st) rest))"
        using nc ih(2) ai nf by simp
      have d: "map result (new_calls st st') = map res (attempted res (n # filter (?P st) rest))"
        using nc ih(3) ri nf by simp
      have e: "stdout st' = stdout st
             @ concat (map (\<lambda>n. report1 n (res n)) (attempted res (n # filter (?P st) rest)))
             @ (if Raised FileNotFoundError \<in> res ` set (n # filter (?P st) rest) then []
                else if 0 < k + (length (n # rest) - length (n # filter (?P st) rest))
                then [''  Skipped ''
                      @ str_nat (k + (length (n # rest) - length (n # filter (?P st) rest)))
                      @ '' SVGs (PNGs already exist)'']
                else [])"
        using ih(5) o2 nf by simp
      from a b d lg' e show ?thesis unfolding pend by blast
    qed
  qed
qed

section \<open>Every launch is reported\<close>

text \<open>
  For any tool: each recorded launch is a call of the tool on the command of a listed
  file, and the lines that report its outcome were printed.
\<close>

lemma svg_loop_reports:
  "svg_loop env svg_dir png_dir names c k st = (r, st') \<Longrightarrow>
   \<exists>ls. stdout st' = stdout st @ ls
     \<and> (\<forall>i \<in> set (new_calls st st').
           (\<exists>h f. env h f (argv i) = (result i, written i))
           \<and> (\<exists>n \<in> set names. argv i = magick_cmd (svg_dir, n) (png_dir, stem n @ ''.png'')
                 \<and> set (report1 n (result i)) \<subseteq> set ls))"
proof (induction names arbitrary: c k st)
  case Nil
  then show ?case by (auto simp add: new_calls_log print_prints split: if_splits)
next
  case (Cons n rest)
  show ?case
  proof (cases "exists (fs st) (png_dir, stem n @ ''.png'')")
    case True
    with Cons.prems have "svg_loop env svg_dir png_dir rest c (k + 1) st = (r, st')"
      by (simp add: Let_def)
    from Cons.IH [OF this] show ?thesis by auto
  next
    case False
    let ?cmd = "magick_cmd (svg_dir, n) (png_dir, stem n @ ''.png'')"
    from subprocess_run_ex [of env ?cmd st] obtain r1 st1 i where
      run: "subprocess_run env ?cmd st = (r1, st1)" and lg: "log st1 = log st @ [i]"
      by blast
    note envi = subprocess_run_env [OF run lg]
    from subprocess_run_result [OF run lg] have ai: "argv i = ?cmd" by blast
    note step = svg_loop_step [OF False run lg, where rest = rest and c = c and k = k]
    let ?st2 = "prints (report1 n (result i)) st1"
    have l2: "log ?st2 = log st @ [i]" using lg by simp
    have o2: "stdout ?st2 = stdout st @ report1 n (result i)"
      using subprocess_run_stdout [OF run] by simp
    have mine: "(\<exists>h f. env h f (argv i) = (result i, written i))
           \<and> (\<exists>m \<in> set (n # rest). argv i = magick_cmd (svg_dir, m) (png_dir, stem m @ ''.png'')
                 \<and> set (report1 m (result i)) \<subseteq> set (report1 n (result i) @ ls))" for ls
      using envi ai by auto
    show ?thesis
    proof (cases "result i = Raised FileNotFoundError")
      case True
      with step Cons.prems have st': "st' = ?st2" by simp
      have nc: "new_calls st st' = [i]" using l2 st' by (simp add: new_calls_def)
      from mine [of "[]"] nc o2 st' show ?thesis
        by (intro exI [of _ "report1 n (result i)"]) simp
    next
      case nf: False
      let ?c' = "if zero_exit (result i) then c + 1 else c"
      from step nf Cons.prems
      have rec: "svg_loop env svg_dir png_dir rest ?c' k ?st2 = (r, st')" by simp
      from Cons.IH [OF rec] obtain ls where
        ls: "stdout st' = stdout ?st2 @ ls"
          "\<forall>i \<in> set (new_calls ?st2 st').
             (\<exists>h f. env h f (argv i) = (result i, written i))
             \<and> (\<exists>n \<in> set rest. argv i = magick_cmd (svg_dir, n) (png_dir, stem n @ ''.png'')
                   \<and> set (report1 n (result i)) \<subseteq> set ls)"
        by blast
      from svg_loop_log [OF rec] have "log st' = log ?st2 @ new_calls ?st2 st'" by blast
      from new_calls_step [OF l2 this] have nc: "new_calls st st' = i # new_calls ?st2 st'"
        by blast
      have out: "stdout st' = stdout st @ (report1 n (result i) @ ls)"
        using ls(1) o2 by simp
      have "\<forall>j \<in> set (new_calls st st').
             (\<exists>h f. env h f (argv j) = (result j, written j))
             \<and> (\<exists>m \<in> set (n # rest).
                   argv j = magick_cmd (svg_dir, m) (png_dir, stem m @ ''.png'')
                   \<and> set (report1 m (result j)) \<subseteq> set (report1 n (result i) @ ls))"
      proof
        fix j assume "j \<in> set (new_calls st st')"
        then consider "j = i" | "j \<in> set (new_calls ?st2 st')" unfolding nc by auto
        then show "(\<exists>h f. env h f (argv j) = (result j, written j))
             \<and> (\<exists>m \<in> set (n # rest).
                   argv j = magick_cmd (svg_dir, m) (png_dir, stem m @ ''.png'')
                   \<and> set (report1 m (result j)) \<subseteq> set (report1 n (result i) @ ls))"
        proof cases
          case 1
          with mine [of ls] show ?thesis by simp
        next
          case 2
          with ls(2) obtain h f m where
            "env h f (argv j) = (result j, written j)" "m \<in> set rest"
            "argv j = magick_cmd (svg_dir, m) (png_dir, stem m @ ''.png'')"
            "set (report1 m (result j)) \<subseteq> set ls"
            by blast
          then show ?thesis by (intro conjI exI bexI [of _ m]) auto
        qed
      qed
      with out show ?thesis by blast
    qed
  qed
qed

lemma png_loop_reports:
  "png_loop env png_dir dds_dir names c st = (r, st') \<Longrightarrow>
   \<exists>ls. stdout st' = stdout st @ ls
     \<and> (\<forall>i \<in> set (new_calls st st').
           (\<exists>h f. env h f (argv i) = (result i, written i))
           \<and> (\<exists>n \<in> set names. argv i = texconv_cmd dds_dir (png_dir, n)
                 \<and> set (report2 n (result i)) \<subseteq> set ls))"
proof (induction names arbitrary: c st)
  case Nil
  then show ?case by (auto simp add: new_calls_log)
next
  case (Cons n rest)
  let ?cmd = "texconv_cmd dds_dir (png_dir, n)"
  from subprocess_run_ex [of env ?cmd st] obtain r1 st1 i where
    run: "subprocess_run env ?cmd st = (r1, st1)" and lg: "log st1 = log st @ [i]"
    by blast
  note envi = subprocess_run_env [OF run lg]
  from subprocess_run_result [OF run lg] have ai: "argv i = ?cmd" by blast
  note step = png_loop_step [OF run lg, where rest = rest and c = c]
  let ?st2 = "prints (report2 n (result i)) st1"
  have l2: "log ?st2 = log st @ [i]" using lg by simp
  have o2: "stdout ?st2 = stdout st @ report2 n (result i)"
    using subprocess_run_stdout [OF run] by simp
  have mine: "(\<exists>h f. env h f (argv i) = (result i, written i))
         \<and> (\<exists>m \<in> set (n # rest). argv i = texconv_cmd dds_dir (png_dir, m)
               \<and> set (report2 m (result i)) \<subseteq> set (report2 n (result i) @ ls))" for ls
    using envi ai by auto
  show ?case
  proof (cases "result i = Raised FileNotFoundError")
    case True
    with step Cons.prems have st': "st' = ?st2" by simp
    have nc: "new_calls st st' = [i]" using l2 st' by (simp add: new_calls_def)
    from mine [of "[]"] nc o2 st' show ?thesis
      by (intro exI [of _ "report2 n (result i)"]) simp
  next
    case nf: False
    let ?c' = "if zero_exit (result i) then c + 1 else c"
    from step nf Cons.prems
    have rec: "png_loop env png_dir dds_dir rest ?c' ?st2 = (r, st')" by simp
    from Cons.IH [OF rec] obtain ls where
      ls: "stdout st' = stdout ?st2 @ ls"
        "\<forall>i \<in> set (new_calls ?st2 st').
           (\<exists>h f. env h f (argv i) = (result i, written i))
           \<and> (\<exists>n \<in> set rest. argv i = texconv_cmd dds_dir (png_dir, n)
                 \<and> set (report2 n (result i)) \<subseteq> set ls)"
      by blast
    from png_loop_log [OF rec] have "log st' = log ?st2 @ new_calls ?st2 st'" by blast
    from new_calls_step [OF l2 this] have nc: "new_calls st st' = i # new_calls ?st2 st'"
      by blast
    have out: "stdout st' = stdout st @ (report2 n (result i) @ ls)"
      using ls(1) o2 by simp
    have "\<forall>j \<in> set (new_calls st st').
           (\<exists>h f. env h f (argv j) = (result j, written j))
           \<and> (\<exists>m \<in> set (n # rest). argv j = texconv_cmd dds_dir (png_dir, m)
                 \<and> set (report2 m (result j)) \<subseteq> set (report2 n (result i) @ ls))"
    proof
      fix j assume "j \<in> set (new_calls st st')"
      then consider "j = i" | "j \<in> set (new_calls ?st2 st')" unfolding nc by auto
      then show "(\<exists>h f. env h f (argv j) = (result j, written j))
           \<and> (\<exists>m \<in> set (n # rest). argv j = texconv_cmd dds_dir (png_dir, m)
                 \<and> set (report2 m (result j)) \<subseteq> set (report2 n (result i) @ ls))"
      proof cases
        case 1
        with mine [of ls] show ?thesis by simp
      next
        case 2
        with ls(2) obtain h f m where
          "env h f (argv j) = (result j, written j)" "m \<in> set rest"
          "argv j = texconv_cmd dds_dir (png_dir, m)"
          "set (report2 m (result j)) \<subseteq> set ls"
          by blast
        then show ?thesis by (intro conjI exI bexI [of _ m]) auto
      qed
    qed
    with out show ?thesis by blast
  qed
qed

lemma stage1_reports:
  "\<exists>n st'. convert_svgs_to_pngs env svg_dir png_dir st = (Inr n, st')
      \<and> log st' = log st @ new_calls st st'
      \<and> stdout st' = stdout st @ new_lines st st'
      \<and> (\<forall>q. is_dir (fs st') q = is_dir (fs st) q)
      \<and> (\<forall>i \<in> set (new_calls st st').
            (\<exists>h f. env h f (argv i) = (result i, written i))
            \<and> (\<exists>name \<in> set (glob (fs st) svg_dir ''.svg'').
                  argv i = magick_cmd (svg_dir, name) (png_dir, stem name @ ''.png'')
                  \<and> set (report1 name (result i)) \<subseteq> set (new_lines st st')))"
proof (cases "glob (fs st) svg_dir ''.svg'' = []")
  case True
  then show ?thesis
    by (simp add: convert_svgs_to_pngs_empty new_calls_def new_lines_def)
next
  case False
  let ?files = "glob (fs st) svg_dir ''.svg''"
  let ?st0 = "mkdir png_dir (mkdir svg_dir st)"
  obtain r st' where loop: "svg_loop env svg_dir png_dir ?files 0 0 ?st0 = (r, st')"
    by (cases "svg_loop env svg_dir png_dir ?files 0 0 ?st0")
  from svg_loop_log [OF loop] obtain n where r: "r = Inr n"
    and lg: "log st' = log st @ new_calls st st'" by auto
  from svg_loop_reports [OF loop] obtain ls where
    ls: "stdout st' = stdout st @ ls"
      "\<forall>i \<in> set (new_calls st st').
           (\<exists>h f. env h f (argv i) = (result i, written i))
           \<and> (\<exists>n \<in> set ?files. argv i = magick_cmd (svg_dir, n) (png_dir, stem n @ ''.png'')
                 \<and> set (report1 n (result i)) \<subseteq> set ls)"
    by auto
  from ls(1) have nl: "new_lines st st' = ls" by (rule new_lines_append)
  from svg_loop_is_dir [OF loop] have dirs: "\<forall>q. is_dir (fs st') q = is_dir (fs st) q"
    by simp
  have "convert_svgs_to_pngs env svg_dir png_dir st = (Inr n, st')"
    using loop r by (simp add: convert_svgs_to_pngs_loop [OF False])
  then show ?thesis
  proof (intro exI conjI)
    show "log st' = log st @ new_calls st st'" by fact
    show "stdout st' = stdout st @ new_lines st st'" unfolding nl by fact
    show "\<forall>q. is_dir (fs st') q = is_dir (fs st) q" by fact
    show "\<forall>i \<in> set (new_calls st st').
            (\<exists>h f. env h f (argv i) = (result i, written i))
            \<and> (\<exists>name \<in> set (glob (fs st) svg_dir ''.svg'').
                  argv i = magick_cmd (svg_dir, name) (png_dir, stem name @ ''.png'')
                  \<and> set (report1 name (result i)) \<subseteq> set (new_lines st st'))"
      unfolding nl by fact
  qed
qed

lemma stage2_reports:
  "\<exists>n st'. convert_pngs_to_dds env png_dir dds_dir st = (Inr n, st')
      \<and> log st' = log st @ new_calls st st'
      \<and> stdout st' = stdout st @ new_lines st st'
      \<and> (\<forall>q. is_dir (fs st') q = is_dir (fs st) q)
      \<and> (\<forall>i \<in> set (new_calls st st').
            (\<exists>h f. env h f (argv i) = (result i, written i))
            \<and> (\<exists>name \<in> set (glob (fs st) png_dir ''.png'').
                  argv i = texconv_cmd dds_dir (png_dir, name)
                  \<and> set (report2 name (result i)) \<subseteq> set (new_lines st st')))"
proof (cases "glob (fs st) png_dir ''.png'' = []")
  case True
  then show ?thesis
    by (simp add: convert_pngs_to_dds_empty new_calls_def new_lines_def)
next
  case False
  let ?files = "glob (fs st) png_dir ''.png''"
  let ?head = "''Converting '' @ str_nat (length ?files) @ '' PNG files to DDS...''"
  let ?st0 = "print ?head (mkdir dds_dir st)"
  obtain r st' where loop: "png_loop env png_dir dds_dir ?files 0 ?st0 = (r, st')"
    by (cases "png_loop env png_dir dds_dir ?files 0 ?st0")
  from png_loop_log [OF loop] obtain n where r: "r = Inr n"
    and lg: "log st' = log st @ new_calls st st'" by auto
  from png_loop_reports [OF loop] obtain ls where
    ls: "stdout st' = stdout st @ (?head # ls)"
      "\<forall>i \<in> set (new_calls st st').
           (\<exists>h f. env h f (argv i) = (result i, written i))
           \<and> (\<exists>n \<in> set ?files. argv i = texconv_cmd dds_dir (png_dir, n)
                 \<and> set (report2 n (result i)) \<subseteq> set ls)"
    by auto
  from ls(1) have nl: "new_lines st st' = ?head # ls" by (rule new_lines_append)
  have rep: "\<forall>i \<in> set (new_calls st st').
           (\<exists>h f. env h f (argv i) = (result i, written i))
           \<and> (\<exists>n \<in> set ?files. argv i = texconv_cmd dds_dir (png_dir, n)
                 \<and> set (report2 n (result i)) \<subseteq> set (?head # ls))"
  proof
    fix i assume "i \<in> set (new_calls st st')"
    with ls(2) obtain h f n where
      "env h f (argv i) = (result i, written i)" "n \<in> set ?files"
      "argv i = texconv_cmd dds_dir (png_dir, n)" "set (report2 n (result i)) \<subseteq> set ls"
      by blast
    then show "(\<exists>h f. env h f (argv i) = (result i, written i))
           \<and> (\<exists>n \<in> set ?files. argv i = texconv_cmd dds_dir (png_dir, n)
                 \<and> set (report2 n (result i)) \<subseteq> set (?head # ls))"
      by (intro conjI exI bexI [of _ n]) auto
  qed
  from png_loop_is_dir [OF loop] have dirs: "\<forall>q. is_dir (fs st') q = is_dir (fs st) q"
    by simp
  have "convert_pngs_to_dds env png_dir dds_dir st = (Inr n, st')"
    using loop r by (simp add: convert_pngs_to_dds_loop [OF False])
  then show ?thesis
  proof (intro exI conjI)
    show "log st' = log st @ new_calls st st'" by fact
    show "stdout st' = stdout st @ new_lines st st'" unfolding nl by fact
    show "\<forall>q. is_dir (fs st') q = is_dir (fs st) q" by fact
    show "\<forall>i \<in> set (new_calls st st').
            (\<exists>h f. env h f (argv i) = (result i, written i))
            \<and> (\<exists>name \<in> set (glob (fs st) png_dir ''.png'').
                  argv i = texconv_cmd dds_dir (png_dir, name)
                  \<and> set (report2 name (result i)) \<subseteq> set (new_lines st st'))"
      unfolding nl by fact
  qed
qed

lemma stage3_output:
  "copy_to_mod_folder png_dir dds_dir mod_dir st = (r, st') \<Longrightarrow>
   log st' = log st \<and> (\<exists>ls. stdout st' = stdout st @ ls)"
proof -
  assume run: "copy_to_mod_folder png_dir dds_dir mod_dir st = (r, st')"
  let ?st0 = "print ([char_of (10::nat)] @ ''Copying files to mod folder: '' @ mod_dir)
                (mkdir mod_dir st)"
  from run have loop:
    "copy_loop dds_dir mod_dir (glob (fs st) dds_dir ''.dds'') 0 ?st0 = (r, st')"
    by (simp add: copy_to_mod_folder_loop)
  from copy_loop_effect [OF loop glob_distinct] obtain k where
    "stdout st' = stdout ?st0 @ map (\<lambda>n. ''  [OK] '' @ n @ '' (DDS)'')
                                   (take k (glob (fs st) dds_dir ''.dds''))"
    "log st' = log ?st0"
    by blast
  then show ?thesis by simp
qed

section \<open>Stage 1 keeps the rasters it finds\<close>

text \<open>
  Claim C3. Take any name whose raster \<open>stem + ".png"\<close> is in the raster directory
  before \<open>convert_svgs_to_pngs\<close> runs. No invocation of the run writes to that raster
  and none is the command line for that source; the raster is the same node afterwards.
  The returned count is the number of invocations of this run that returned 0, each
  for a source whose raster did not exist. The sources with a raster before the run are
  not among the invocations, and when the binary was never missing and some source was
  not invoked, the last line printed is the \<open>Skipped\<close> line with the number of
  sources that were not invoked.
\<close>

theorem existing_raster_is_skipped:
  assumes "convert_svgs_to_pngs env svg_dir png_dir st = (r, st')"
      and "exists (fs st) (png_dir, stem name @ ''.png'')"
  shows "(\<forall>i \<in> set (new_calls st st').
            target (argv i) \<noteq> Some (png_dir, stem name @ ''.png'')
            \<and> argv i \<noteq> magick_cmd (svg_dir, name) (png_dir, stem name @ ''.png''))
     \<and> lookup (fs st') (png_dir, stem name @ ''.png'')
         = lookup (fs st) (png_dir, stem name @ ''.png'')
     \<and> r = Inr (length (filter succeeded (new_calls st st')))
     \<and> length (new_calls st st')
         + length (filter (\<lambda>n. exists (fs st) (png_dir, stem n @ ''.png''))
                     (glob (fs st) svg_dir ''.svg''))
         \<le> length (glob (fs st) svg_dir ''.svg'')
     \<and> ((\<forall>i \<in> set (new_calls st st'). \<not> not_found i)
          \<and> length (new_calls st st') < length (glob (fs st) svg_dir ''.svg'')
        \<longrightarrow> last (stdout st') =
             ''  Skipped ''
             @ str_nat (length (glob (fs st) svg_dir ''.svg'') - length (new_calls st st'))
             @ '' SVGs (PNGs already exist)'')"
proof (cases "glob (fs st) svg_dir ''.svg'' = []")
  case True
  from assms(1) have "r = Inr 0" "st' = print ''No SVG files found'' (mkdir png_dir (mkdir svg_dir st))"
    by (simp_all add: convert_svgs_to_pngs_empty [OF True])
  with True show ?thesis by (simp add: new_calls_log)
next
  case False
  let ?st0 = "mkdir png_dir (mkdir svg_dir st)"
  let ?files = "glob (fs st) svg_dir ''.svg''"
  let ?png = "(png_dir, stem name @ ''.png'')"
  from assms(1) convert_svgs_to_pngs_loop [OF False]
  have loop: "svg_loop env svg_dir png_dir ?files 0 0 ?st0 = (r, st')" by simp
  have nc: "new_calls ?st0 st' = new_calls st st'" by simp
  have ex: "exists (fs ?st0) q = exists (fs st) q" for q by simp
  from svg_loop_invoked [OF loop] nc ex assms(2)
  have a: "\<forall>i \<in> set (new_calls st st').
            target (argv i) \<noteq> Some ?png \<and> argv i \<noteq> magick_cmd (svg_dir, name) ?png"
    by (fastforce simp add: magick_cmd_def)
  from svg_loop_frame [OF loop, of ?png] assms(2)
  have b: "lookup (fs st') ?png = lookup (fs st) ?png" by simp
  from svg_loop_log [OF loop] nc
  have c: "r = Inr (length (filter succeeded (new_calls st st')))" by simp
  have "length (filter (\<lambda>n. exists (fs st) (png_dir, stem n @ ''.png'')) ?files)
        + length (filter (\<lambda>n. \<not> exists (fs st) (png_dir, stem n @ ''.png'')) ?files)
        = length ?files"
    by (rule sum_length_filter_compl)
  with svg_loop_few [OF loop] nc
  have d: "length (new_calls st st')
            + length (filter (\<lambda>n. exists (fs st) (png_dir, stem n @ ''.png'')) ?files)
           \<le> length ?files"
    by simp
  from svg_loop_skipped [OF loop] nc
  have e: "(\<forall>i \<in> set (new_calls st st'). \<not> not_found i)
          \<and> length (new_calls st st') < length ?files
        \<longrightarrow> last (stdout st') =
             ''  Skipped '' @ str_nat (length ?files - length (new_calls st st'))
             @ '' SVGs (PNGs already exist)''"
    by simp
  from a b c d e show ?thesis by blast
qed

theorem existing_raster_is_skipped_witness:
  "exists (fs (st_of [(''svg'', [(''a.svg'', File [1] 0), (''b.svg'', File [2] 0)]),
                      (''pngs'', [(''a.png'', File [9] 0)])]))
          (''pngs'', stem ''a.svg'' @ ''.png'')
   \<and> lookup (fs (snd (convert_svgs_to_pngs tool_ok ''svg'' ''pngs''
                (st_of [(''svg'', [(''a.svg'', File [1] 0), (''b.svg'', File [2] 0)]),
                        (''pngs'', [(''a.png'', File [9] 0)])]))))
          (''pngs'', stem ''a.svg'' @ ''.png'')
       = Some (File [9] 0)"
proof -
  let ?S = "st_of [(''svg'', [(''a.svg'', File [1] 0), (''b.svg'', File [2] 0)]),
                   (''pngs'', [(''a.png'', File [9] 0)])]"
  have ex: "exists (fs ?S) (''pngs'', stem ''a.svg'' @ ''.png'')"
    by code_simp
  have old: "lookup (fs ?S) (''pngs'', stem ''a.svg'' @ ''.png'') = Some (File [9] 0)"
    by code_simp
  from existing_raster_is_skipped [OF surjective_pairing ex] old ex
  show ?thesis by simp
qed

section \<open>Running stage 1 twice\<close>

text \<open>
  Claim C6, amended. Let a first run of \<open>convert_svgs_to_pngs\<close> be such that every
  invocation it made returned 0 and wrote its raster. Then a second run on the state
  the first one left, whatever the tool would do now, returns 0 and invokes nothing.
  The written raster is needed: the script counts a conversion as done when the process
  returned 0, and never looks for the file.
\<close>

theorem second_run_converts_nothing:
  assumes run1: "convert_svgs_to_pngs env svg_dir png_dir st = (r1, st1)"
      and ok: "\<forall>i \<in> set (new_calls st st1). succeeded i \<and> written i \<noteq> None"
  shows "\<exists>st2. convert_svgs_to_pngs env' svg_dir png_dir st1 = (Inr 0, st2)
           \<and> new_calls st1 st2 = []"
proof -
  let ?files = "glob (fs st) svg_dir ''.svg''"
  let ?files2 = "glob (fs st1) svg_dir ''.svg''"
  let ?st0 = "mkdir png_dir (mkdir svg_dir st)"
  let ?st1' = "mkdir png_dir (mkdir svg_dir st1)"
  have all: "\<forall>n \<in> set ?files2. exists (fs st1) (png_dir, stem n @ ''.png'')"
  proof (cases "?files = []")
    case True
    from run1 have "st1 = print ''No SVG files found'' (mkdir png_dir (mkdir svg_dir st))"
      by (simp add: convert_svgs_to_pngs_empty [OF True])
    with True have "glob (fs st1) svg_dir ''.svg'' = []" by simp
    then show ?thesis by simp
  next
    case False
    from run1 convert_svgs_to_pngs_loop [OF False]
    have loop: "svg_loop env svg_dir png_dir ?files 0 0 ?st0 = (r1, st1)" by simp
    have nc: "new_calls ?st0 st1 = new_calls st st1" by simp
    have dir: "fs ?st0 png_dir \<noteq> None" by simp
    from ok have nf: "\<forall>i \<in> set (new_calls ?st0 st1). \<not> not_found i"
      by (auto simp add: succeeded_def not_found_def)
    have produced: "exists (fs st1) (png_dir, stem n @ ''.png'')" if "n \<in> set ?files" for n
    proof -
      from svg_loop_complete [OF loop nf] that
      consider "exists (fs st1) (png_dir, stem n @ ''.png'')"
        | i where "i \<in> set (new_calls st st1)"
            "argv i = magick_cmd (svg_dir, n) (png_dir, stem n @ ''.png'')"
        by (auto simp add: nc)
      then show ?thesis
      proof cases
        case 1
        then show ?thesis .
      next
        case 2
        with svg_loop_written [OF loop dir] ok nc show ?thesis by auto
      qed
    qed
    show ?thesis
    proof
      fix n assume "n \<in> set ?files2"
      then have n: "ends_with ''.svg'' n" "exists (fs st1) (svg_dir, n)"
        by (simp_all add: glob_set)
      from svg_loop_creates [OF loop n(2)] n(1) not_svg_png
      have "exists (fs st) (svg_dir, n)" by auto
      with n(1) have "n \<in> set ?files" by (simp add: glob_set)
      then show "exists (fs st1) (png_dir, stem n @ ''.png'')" by (rule produced)
    qed
  qed
  show ?thesis
  proof (cases "?files2 = []")
    case True
    then show ?thesis
      by (simp add: convert_svgs_to_pngs_empty [OF True] new_calls_log)
  next
    case False
    from all have "\<forall>n \<in> set ?files2. exists (fs ?st1') (png_dir, stem n @ ''.png'')"
      by simp
    from svg_loop_all_skipped [OF this, of env' svg_dir 0 0]
    obtain st2 where "svg_loop env' svg_dir png_dir ?files2 0 0 ?st1' = (Inr 0, st2)"
      "log st2 = log ?st1'"
      by blast
    with convert_svgs_to_pngs_loop [OF False, of env' png_dir] show ?thesis
      by (simp add: new_calls_log)
  qed
qed

theorem second_run_converts_nothing_witness:
  "list_all (\<lambda>i. succeeded i \<and> written i \<noteq> None)
      (new_calls
        (st_of [(''svg'', [(''a.svg'', File [1] 0), (''b.svg'', File [2] 0)]),
                (''pngs'', [(''a.png'', File [9] 0)])])
        (snd (convert_svgs_to_pngs tool_ok ''svg'' ''pngs''
           (st_of [(''svg'', [(''a.svg'', File [1] 0), (''b.svg'', File [2] 0)]),
                   (''pngs'', [(''a.png'', File [9] 0)])]))))
   \<and> length (new_calls
        (st_of [(''svg'', [(''a.svg'', File [1] 0), (''b.svg'', File [2] 0)]),
                (''pngs'', [(''a.png'', File [9] 0)])])
        (snd (convert_svgs_to_pngs tool_ok ''svg'' ''pngs''
           (st_of [(''svg'', [(''a.svg'', File [1] 0), (''b.svg'', File [2] 0)]),
                   (''pngs'', [(''a.png'', File [9] 0)])])))) = 1
   \<and> fst (convert_svgs_to_pngs tool_ok ''svg'' ''pngs''
        (snd (convert_svgs_to_pngs tool_ok ''svg'' ''pngs''
           (st_of [(''svg'', [(''a.svg'', File [1] 0), (''b.svg'', File [2] 0)]),
                   (''pngs'', [(''a.png'', File [9] 0)])])))) = Inr 0"
proof -
  let ?S = "st_of [(''svg'', [(''a.svg'', File [1] 0), (''b.svg'', File [2] 0)]),
                   (''pngs'', [(''a.png'', File [9] 0)])]"
  let ?S1 = "snd (convert_svgs_to_pngs tool_ok ''svg'' ''pngs'' ?S)"
  have all: "list_all (\<lambda>i. succeeded i \<and> written i \<noteq> None) (new_calls ?S ?S1)"
    by code_simp
  have one: "length (new_calls ?S ?S1) = 1"
    by code_simp
  from all have ok: "\<forall>i \<in> set (new_calls ?S ?S1). succeeded i \<and> written i \<noteq> None"
    by (simp add: list_all_iff)
  from second_run_converts_nothing [OF surjective_pairing ok, of tool_ok]
  obtain st2 where "convert_svgs_to_pngs tool_ok ''svg'' ''pngs'' ?S1 = (Inr 0, st2)"
    by blast
  with all one show ?thesis by simp
qed

text \<open>
  With the return code as the only test of success, as in the script, the claim fails:
  a tool that returns 0 and writes nothing leaves the source without a raster, and the
  second run launches the tool for it again and returns 1.
\<close>

theorem second_run_converts_nothing_counterexample:
  "list_all succeeded
      (new_calls (st_of [(''svg'', [(''a.svg'', File [1] 0)])])
         (snd (convert_svgs_to_pngs tool_silent ''svg'' ''pngs''
            (st_of [(''svg'', [(''a.svg'', File [1] 0)])]))))
   \<and> fst (convert_svgs_to_pngs tool_silent ''svg'' ''pngs''
          (st_of [(''svg'', [(''a.svg'', File [1] 0)])])) = Inr 1
   \<and> glob (fs (snd (convert_svgs_to_pngs tool_silent ''svg'' ''pngs''
                  (st_of [(''svg'', [(''a.svg'', File [1] 0)])])))) ''svg'' ''.svg''
      = glob (fs (st_of [(''svg'', [(''a.svg'', File [1] 0)])])) ''svg'' ''.svg''
   \<and> fst (convert_svgs_to_pngs tool_silent ''svg'' ''pngs''
          (snd (convert_svgs_to_pngs tool_silent ''svg'' ''pngs''
             (st_of [(''svg'', [(''a.svg'', File [1] 0)])])))) = Inr 1
   \<and> map argv (new_calls
          (snd (convert_svgs_to_pngs tool_silent ''svg'' ''pngs''
             (st_of [(''svg'', [(''a.svg'', File [1] 0)])])))
          (snd (convert_svgs_to_pngs tool_silent ''svg'' ''pngs''
             (snd (convert_svgs_to_pngs tool_silent ''svg'' ''pngs''
                (st_of [(''svg'', [(''a.svg'', File [1] 0)])]))))))
      = [magick_cmd (''svg'', ''a.svg'') (''pngs'', ''a.png'')]"
  by code_simp

section \<open>Stage 2 converts every raster again\<close>

text \<open>
  Claim C4, amended. Whatever the compressed-output directory holds,
  \<open>convert_pngs_to_dds\<close> has no branch that skips a raster: the command lines of a
  run are those of the listed rasters, in the order of the listing, each name once and
  each with the overwrite flag \<open>-y\<close>. The run covers the whole listing unless a
  launch raised \<open>FileNotFoundError\<close>; that launch is then the last of the run and the
  rasters after it are not attempted.
\<close>

theorem every_raster_is_invoked_once:
  assumes "convert_pngs_to_dds env png_dir dds_dir st = (r, st')"
  shows "distinct (glob (fs st) png_dir ''.png'')
     \<and> map argv (new_calls st st')
         = map (\<lambda>n. texconv_cmd dds_dir (png_dir, n))
             (take (length (new_calls st st')) (glob (fs st) png_dir ''.png''))
     \<and> ((\<forall>i \<in> set (new_calls st st'). \<not> not_found i)
           \<longrightarrow> length (new_calls st st') = length (glob (fs st) png_dir ''.png''))
     \<and> (\<forall>i \<in> set (butlast (new_calls st st')). \<not> not_found i)
     \<and> (\<forall>i \<in> set (new_calls st st'). Lit ''-y'' \<in> set (argv i))"
  using stage2_calls [OF assms] .

theorem every_raster_is_invoked_once_witness:
  "map argv (new_calls
        (st_of [(''pngs'', [(''a.png'', File [9] 0), (''b.png'', File [8] 0)]),
                (''dds'', [(''a.dds'', File [5] 0)])])
        (snd (convert_pngs_to_dds tool_failing ''pngs'' ''dds''
           (st_of [(''pngs'', [(''a.png'', File [9] 0), (''b.png'', File [8] 0)]),
                   (''dds'', [(''a.dds'', File [5] 0)])]))))
      = [texconv_cmd ''dds'' (''pngs'', ''a.png''), texconv_cmd ''dds'' (''pngs'', ''b.png'')]"
proof -
  let ?S = "st_of [(''pngs'', [(''a.png'', File [9] 0), (''b.png'', File [8] 0)]),
                   (''dds'', [(''a.dds'', File [5] 0)])]"
  let ?S' = "snd (convert_pngs_to_dds tool_failing ''pngs'' ''dds'' ?S)"
  have nf: "\<forall>i \<in> set (new_calls ?S ?S'). \<not> not_found i" by code_simp
  have g: "glob (fs ?S) ''pngs'' ''.png'' = [''a.png'', ''b.png'']" by code_simp
  note once = every_raster_is_invoked_once
    [where env = tool_failing and png_dir = "''pngs''" and dds_dir = "''dds''" and st = ?S,
     OF surjective_pairing]
  from once nf have "length (new_calls ?S ?S') = length (glob (fs ?S) ''pngs'' ''.png'')"
    by blast
  with g have len: "length (new_calls ?S ?S') = 2" by simp
  from once have "map argv (new_calls ?S ?S')
      = map (\<lambda>n. texconv_cmd ''dds'' (''pngs'', n))
          (take (length (new_calls ?S ?S')) (glob (fs ?S) ''pngs'' ''.png''))"
    by blast
  with len g show ?thesis by simp
qed

text \<open>
  As stated, with "every raster file, exactly once", the claim fails when the binary is
  missing: of two rasters only the first is attempted.
\<close>

theorem every_raster_is_invoked_once_counterexample:
  "glob (fs (st_of [(''pngs'', [(''a.png'', File [9] 0), (''b.png'', File [8] 0)])]))
        ''pngs'' ''.png'' = [''a.png'', ''b.png'']
   \<and> map argv (new_calls (st_of [(''pngs'', [(''a.png'', File [9] 0), (''b.png'', File [8] 0)])])
        (snd (convert_pngs_to_dds tool_missing ''pngs'' ''dds''
           (st_of [(''pngs'', [(''a.png'', File [9] 0), (''b.png'', File [8] 0)])]))))
      = [texconv_cmd ''dds'' (''pngs'', ''a.png'')]"
  by code_simp

section \<open>A missing binary stops the stage, a failing file does not\<close>

text \<open>
  Claim C5. Let the outcome of a launch be given by the tool as a function \<open>out\<close> of
  the command line: the binary cannot be launched (\<open>FileNotFoundError\<close>), the tool
  returns a code, or the launch raises something else. Stage 2 takes the listed rasters
  in order, stage 1 the listed sources that have no raster yet (\<open>pending\<close>; their
  stems are taken distinct, so that no launch of the run produces the raster of a later
  source). The files launched are those up to and including the first whose binary
  cannot be launched (\<open>attempted\<close>): no file after it is launched. The count returned
  is the number of launches before that point that returned 0 (\<open>completed\<close>). A
  launch that returns another code, or raises something else, is not counted, its
  \<open>[ERR]\<close> line with the captured error text is printed (\<open>report1\<close>,
  \<open>report2\<close>), and the next file is launched. The printed text is exactly the
  reports of the launches in order, after the heading of stage 2 and before the
  \<open>Skipped\<close> line of stage 1, which is printed only when no binary was missing.
\<close>

theorem launch_failure_stops_tool_failure_continues:
  assumes "\<forall>h f a. fst (env h f a) = out a"
  shows "(\<exists>st'. convert_pngs_to_dds env png_dir dds_dir st
              = (Inr (completed (\<lambda>n. out (texconv_cmd dds_dir (png_dir, n)))
                        (glob (fs st) png_dir ''.png'')), st')
          \<and> map argv (new_calls st st')
              = map (\<lambda>n. texconv_cmd dds_dir (png_dir, n))
                  (attempted (\<lambda>n. out (texconv_cmd dds_dir (png_dir, n)))
                     (glob (fs st) png_dir ''.png''))
          \<and> map result (new_calls st st')
              = map (\<lambda>n. out (texconv_cmd dds_dir (png_dir, n)))
                  (attempted (\<lambda>n. out (texconv_cmd dds_dir (png_dir, n)))
                     (glob (fs st) png_dir ''.png''))
          \<and> new_lines st st'
              = (if glob (fs st) png_dir ''.png'' = []
                 then [''No PNG files found in '' @ png_dir]
                 else (''Converting '' @ str_nat (length (glob (fs st) png_dir ''.png''))
                         @ '' PNG files to DDS...'')
                      # concat (map (\<lambda>n. report2 n (out (texconv_cmd dds_dir (png_dir, n))))
                          (attempted (\<lambda>n. out (texconv_cmd dds_dir (png_dir, n)))
                             (glob (fs st) png_dir ''.png'')))))
     \<and> (distinct (map stem (pending (fs st) svg_dir png_dir)) \<longrightarrow>
         (\<exists>st'. convert_svgs_to_pngs env svg_dir png_dir st
              = (Inr (completed
                        (\<lambda>n. out (magick_cmd (svg_dir, n) (png_dir, stem n @ ''.png'')))
                        (pending (fs st) svg_dir png_dir)), st')
          \<and> map argv (new_calls st st')
              = map (\<lambda>n. magick_cmd (svg_dir, n) (png_dir, stem n @ ''.png''))
                  (attempted (\<lambda>n. out (magick_cmd (svg_dir, n) (png_dir, stem n @ ''.png'')))
                     (pending (fs st) svg_dir png_dir))
          \<and> map result (new_calls st st')
              = map (\<lambda>n. out (magick_cmd (svg_dir, n) (png_dir, stem n @ ''.png'')))
                  (attempted (\<lambda>n. out (magick_cmd (svg_dir, n) (png_dir, stem n @ ''.png'')))
                     (pending (fs st) svg_dir png_dir))
          \<and> new_lines st st'
              = (if glob (fs st) svg_dir ''.svg'' = [] then [''No SVG files found'']
                 else concat (map (\<lambda>n. report1 n
                                 (out (magick_cmd (svg_dir, n) (png_dir, stem n @ ''.png''))))
                        (attempted
                           (\<lambda>n. out (magick_cmd (svg_dir, n) (png_dir, stem n @ ''.png'')))
                           (pending (fs st) svg_dir png_dir)))
                      @ (if Raised FileNotFoundError
                            \<in> (\<lambda>n. out (magick_cmd (svg_dir, n) (png_dir, stem n @ ''.png'')))
                                ` set (pending (fs st) svg_dir png_dir)
                         then []
                         else if length (pending (fs st) svg_dir png_dir)
                                 < length (glob (fs st) svg_dir ''.svg'')
                         then [''  Skipped ''
                               @ str_nat (length (glob (fs st) svg_dir ''.svg'')
                                          - length (pending (fs st) svg_dir png_dir))
                               @ '' SVGs (PNGs already exist)'']
                         else []))))"
proof (intro conjI impI)
  let ?files = "glob (fs st) png_dir ''.png''"
  let ?res = "\<lambda>n. out (texconv_cmd dds_dir (png_dir, n))"
  show "\<exists>st'. convert_pngs_to_dds env png_dir dds_dir st = (Inr (completed ?res ?files), st')
          \<and> map argv (new_calls st st')
              = map (\<lambda>n. texconv_cmd dds_dir (png_dir, n)) (attempted ?res ?files)
          \<and> map result (new_calls st st') = map ?res (attempted ?res ?files)
          \<and> new_lines st st'
              = (if ?files = [] then [''No PNG files found in '' @ png_dir]
                 else (''Converting '' @ str_nat (length ?files) @ '' PNG files to DDS...'')
                      # concat (map (\<lambda>n. report2 n (?res n)) (attempted ?res ?files)))"
  proof (cases "?files = []")
    case True
    then show ?thesis
      by (simp add: convert_pngs_to_dds_empty new_calls_log new_lines_def)
  next
    case False
    let ?st0 = "print (''Converting '' @ str_nat (length ?files) @ '' PNG files to DDS...'')
                  (mkdir dds_dir st)"
    from png_loop_by_outcome [OF assms refl, where png_dir = png_dir and dds_dir = dds_dir
        and names = ?files and c = 0 and st = ?st0]
    obtain st' where
      l: "png_loop env png_dir dds_dir ?files 0 ?st0 = (Inr (0 + completed ?res ?files), st')"
        "map argv (new_calls ?st0 st')
          = map (\<lambda>n. texconv_cmd dds_dir (png_dir, n)) (attempted ?res ?files)"
        "map result (new_calls ?st0 st') = map ?res (attempted ?res ?files)"
        "stdout st' = stdout ?st0 @ concat (map (\<lambda>n. report2 n (?res n)) (attempted ?res ?files))"
      by blast
    have nl: "new_lines st st'
                = (''Converting '' @ str_nat (length ?files) @ '' PNG files to DDS...'')
                  # concat (map (\<lambda>n. report2 n (?res n)) (attempted ?res ?files))"
      using l(4) by (intro new_lines_append) simp
    from l(1,2,3) nl False show ?thesis
      by (simp add: convert_pngs_to_dds_loop [OF False])
  qed
next
  let ?files = "glob (fs st) svg_dir ''.svg''"
  let ?pend = "pending (fs st) svg_dir png_dir"
  let ?res = "\<lambda>n. out (magick_cmd (svg_dir, n) (png_dir, stem n @ ''.png''))"
  assume dist: "distinct (map stem ?pend)"
  show "\<exists>st'. convert_svgs_to_pngs env svg_dir png_dir st = (Inr (completed ?res ?pend), st')
          \<and> map argv (new_calls st st')
              = map (\<lambda>n. magick_cmd (svg_dir, n) (png_dir, stem n @ ''.png''))
                  (attempted ?res ?pend)
          \<and> map result (new_calls st st') = map ?res (attempted ?res ?pend)
          \<and> new_lines st st'
              = (if ?files = [] then [''No SVG files found'']
                 else concat (map (\<lambda>n. report1 n (?res n)) (attempted ?res ?pend))
                      @ (if Raised FileNotFoundError \<in> ?res ` set ?pend then []
                         else if length ?pend < length ?files
                         then [''  Skipped '' @ str_nat (length ?files - length ?pend)
                               @ '' SVGs (PNGs already exist)'']
                         else []))"
  proof (cases "?files = []")
    case True
    then have "?pend = []" by (simp add: pending_def)
    with True show ?thesis
      by (simp add: convert_svgs_to_pngs_empty new_calls_log new_lines_def)
  next
    case False
    let ?st0 = "mkdir png_dir (mkdir svg_dir st)"
    have pend0: "filter (\<lambda>n. \<not> exists (fs ?st0) (png_dir, stem n @ ''.png'')) ?files = ?pend"
      by (simp add: pending_def)
    from dist have dist0:
      "distinct (map stem
         (filter (\<lambda>n. \<not> exists (fs ?st0) (png_dir, stem n @ ''.png'')) ?files))"
      unfolding pend0 .
    from svg_loop_by_outcome [OF assms refl dist0, where c = 0 and k = 0]
    obtain st' where
      l: "svg_loop env svg_dir png_dir ?files 0 0 ?st0 = (Inr (0 + completed ?res ?pend), st')"
        "map argv (new_calls ?st0 st')
          = map (\<lambda>n. magick_cmd (svg_dir, n) (png_dir, stem n @ ''.png''))
              (attempted ?res ?pend)"
        "map result (new_calls ?st0 st') = map ?res (attempted ?res ?pend)"
        "stdout st' = stdout ?st0
          @ concat (map (\<lambda>n. report1 n (?res n)) (attempted ?res ?pend))
          @ (if Raised FileNotFoundError \<in> ?res ` set ?pend then []
             else if 0 < 0 + (length ?files - length ?pend)
             then [''  Skipped '' @ str_nat (0 + (length ?files - length ?pend))
                   @ '' SVGs (PNGs already exist)'']
             else [])"
      unfolding pend0 by blast
    have nl: "new_lines st st'
                = concat (map (\<lambda>n. report1 n (?res n)) (attempted ?res ?pend))
                  @ (if Raised FileNotFoundError \<in> ?res ` set ?pend then []
                     else if length ?pend < length ?files
                     then [''  Skipped '' @ str_nat (length ?files - length ?pend)
                           @ '' SVGs (PNGs already exist)'']
                     else [])"
      using l(4) by (intro new_lines_append) simp
    from l(1,2,3) nl False show ?thesis
      by (simp add: convert_svgs_to_pngs_loop [OF False])
  qed
qed

theorem launch_failure_stops_tool_failure_continues_witness:
  "fst (convert_pngs_to_dds tool_mixed ''pngs'' ''dds''
          (st_of [(''pngs'', [(''c.png'', File [3] 0), (''a.png'', File [1] 0),
                              (''b.png'', File [2] 0), (''d.png'', File [4] 0)])])) = Inr 1
   \<and> map argv (new_calls
          (st_of [(''pngs'', [(''c.png'', File [3] 0), (''a.png'', File [1] 0),
                              (''b.png'', File [2] 0), (''d.png'', File [4] 0)])])
          (snd (convert_pngs_to_dds tool_mixed ''pngs'' ''dds''
             (st_of [(''pngs'', [(''c.png'', File [3] 0), (''a.png'', File [1] 0),
                                 (''b.png'', File [2] 0), (''d.png'', File [4] 0)])]))))
       = [texconv_cmd ''dds'' (''pngs'', ''c.png''), texconv_cmd ''dds'' (''pngs'', ''a.png''),
          texconv_cmd ''dds'' (''pngs'', ''b.png'')]
   \<and> distinct (map stem (pending
          (fs (st_of [(''svg'', [(''c.svg'', File [3] 0), (''a.svg'', File [1] 0),
                                 (''b.svg'', File [2] 0), (''d.svg'', File [4] 0)])]))
          ''svg'' ''pngs''))
   \<and> fst (convert_svgs_to_pngs tool_mixed ''svg'' ''pngs''
          (st_of [(''svg'', [(''c.svg'', File [3] 0), (''a.svg'', File [1] 0),
                             (''b.svg'', File [2] 0), (''d.svg'', File [4] 0)])])) = Inr 1
   \<and> new_lines
          (st_of [(''svg'', [(''c.svg'', File [3] 0), (''a.svg'', File [1] 0),
                             (''b.svg'', File [2] 0), (''d.svg'', File [4] 0)])])
          (snd (convert_svgs_to_pngs tool_mixed ''svg'' ''pngs''
             (st_of [(''svg'', [(''c.svg'', File [3] 0), (''a.svg'', File [1] 0),
                                (''b.svg'', File [2] 0), (''d.svg'', File [4] 0)])])))
       = [''  [ERR] c.svg - ImageMagick error: bad input'', ''  [OK] a.svg -> a.png'',
          ''  [ERR] magick not found in PATH!'',
          ''    Download from: https://imagemagick.org/script/download.php'']"
proof -
  let ?S2 = "st_of [(''pngs'', [(''c.png'', File [3] 0), (''a.png'', File [1] 0),
                                (''b.png'', File [2] 0), (''d.png'', File [4] 0)])]"
  let ?S1 = "st_of [(''svg'', [(''c.svg'', File [3] 0), (''a.svg'', File [1] 0),
                               (''b.svg'', File [2] 0), (''d.svg'', File [4] 0)])]"
  let ?res2 = "\<lambda>n. out_mixed (texconv_cmd ''dds'' (''pngs'', n))"
  let ?res1 = "\<lambda>n. out_mixed (magick_cmd (''svg'', n) (''pngs'', stem n @ ''.png''))"
  have H: "\<forall>h f a. fst (tool_mixed h f a) = out_mixed a"
    by (simp add: tool_mixed_def)
  have c2: "completed ?res2 (glob (fs ?S2) ''pngs'' ''.png'') = 1" by code_simp
  have a2: "map (\<lambda>n. texconv_cmd ''dds'' (''pngs'', n))
              (attempted ?res2 (glob (fs ?S2) ''pngs'' ''.png''))
            = [texconv_cmd ''dds'' (''pngs'', ''c.png''),
               texconv_cmd ''dds'' (''pngs'', ''a.png''),
               texconv_cmd ''dds'' (''pngs'', ''b.png'')]"
    by code_simp
  have d1: "distinct (map stem (pending (fs ?S1) ''svg'' ''pngs''))" by code_simp
  have c1: "completed ?res1 (pending (fs ?S1) ''svg'' ''pngs'') = 1" by code_simp
  have l1: "(if glob (fs ?S1) ''svg'' ''.svg'' = [] then [''No SVG files found'']
             else concat (map (\<lambda>n. report1 n (?res1 n))
                        (attempted ?res1 (pending (fs ?S1) ''svg'' ''pngs'')))
                  @ (if Raised FileNotFoundError \<in> ?res1 ` set (pending (fs ?S1) ''svg'' ''pngs'')
                     then []
                     else if length (pending (fs ?S1) ''svg'' ''pngs'')
                             < length (glob (fs ?S1) ''svg'' ''.svg'')
                     then [''  Skipped ''
                           @ str_nat (length (glob (fs ?S1) ''svg'' ''.svg'')
                                      - length (pending (fs ?S1) ''svg'' ''pngs''))
                           @ '' SVGs (PNGs already exist)'']
                     else []))
            = [''  [ERR] c.svg - ImageMagick error: bad input'', ''  [OK] a.svg -> a.png'',
               ''  [ERR] magick not found in PATH!'',
               ''    Download from: https://imagemagick.org/script/download.php'']"
    by code_simp
  from launch_failure_stops_tool_failure_continues
    [OF H, where png_dir = "''pngs''" and dds_dir = "''dds''" and st = ?S2, THEN conjunct1]
  obtain st2 where
    s2: "convert_pngs_to_dds tool_mixed ''pngs'' ''dds'' ?S2
           = (Inr (completed ?res2 (glob (fs ?S2) ''pngs'' ''.png'')), st2)"
      "map argv (new_calls ?S2 st2)
         = map (\<lambda>n. texconv_cmd ''dds'' (''pngs'', n))
             (attempted ?res2 (glob (fs ?S2) ''pngs'' ''.png''))"
    by blast
  from launch_failure_stops_tool_failure_continues
    [OF H, where png_dir = "''pngs''" and svg_dir = "''svg''" and st = ?S1,
     THEN conjunct2, rule_format, OF d1]
  obtain st1 where
    s1: "convert_svgs_to_pngs tool_mixed ''svg'' ''pngs'' ?S1
           = (Inr (completed ?res1 (pending (fs ?S1) ''svg'' ''pngs'')), st1)"
      "new_lines ?S1 st1
         = (if glob (fs ?S1) ''svg'' ''.svg'' = [] then [''No SVG files found'']
             else concat (map (\<lambda>n. report1 n (?res1 n))
                        (attempted ?res1 (pending (fs ?S1) ''svg'' ''pngs'')))
                  @ (if Raised FileNotFoundError \<in> ?res1 ` set (pending (fs ?S1) ''svg'' ''pngs'')
                     then []
                     else if length (pending (fs ?S1) ''svg'' ''pngs'')
                             < length (glob (fs ?S1) ''svg'' ''.svg'')
                     then [''  Skipped ''
                           @ str_nat (length (glob (fs ?S1) ''svg'' ''.svg'')
                                      - length (pending (fs ?S1) ''svg'' ''pngs''))
                           @ '' SVGs (PNGs already exist)'']
                     else []))"
    by blast
  have p2: "fst (convert_pngs_to_dds tool_mixed ''pngs'' ''dds'' ?S2) = Inr 1"
    unfolding s2(1) c2 by simp
  have q2: "map argv (new_calls ?S2 (snd (convert_pngs_to_dds tool_mixed ''pngs'' ''dds'' ?S2)))
       = [texconv_cmd ''dds'' (''pngs'', ''c.png''), texconv_cmd ''dds'' (''pngs'', ''a.png''),
          texconv_cmd ''dds'' (''pngs'', ''b.png'')]"
    unfolding s2(1) snd_conv s2(2) a2 ..
  have p1: "fst (convert_svgs_to_pngs tool_mixed ''svg'' ''pngs'' ?S1) = Inr 1"
    unfolding s1(1) c1 by simp
  have q1: "new_lines ?S1 (snd (convert_svgs_to_pngs tool_mixed ''svg'' ''pngs'' ?S1))
       = [''  [ERR] c.svg - ImageMagick error: bad input'', ''  [OK] a.svg -> a.png'',
          ''  [ERR] magick not found in PATH!'',
          ''    Download from: https://imagemagick.org/script/download.php'']"
    unfolding s1(1) snd_conv s1(2) l1 ..
  from p2 q2 d1 p1 q1 show ?thesis by (intro conjI)
qed

section \<open>A missing raster directory\<close>

text \<open>
  Claim C10. When the raster directory does not exist, \<open>convert_pngs_to_dds\<close> raises
  nothing, returns 0, prints \<open>No PNG files found in\<close> with the directory, invokes
  nothing and does not create the directory (unless it is also given as the output
  directory); return value, printed text and log are those of a run on the existing
  empty directory. Stage 1 run on the same state leaves both its directories existing.
\<close>

theorem missing_raster_directory_is_empty_input:
  assumes "fs st png_dir = None"
  shows "(\<exists>st'. convert_pngs_to_dds env png_dir dds_dir st = (Inr 0, st')
           \<and> stdout st' = stdout st @ [''No PNG files found in '' @ png_dir]
           \<and> log st' = log st
           \<and> (png_dir \<noteq> dds_dir \<longrightarrow> fs st' png_dir = None))
     \<and> (\<exists>st'. convert_pngs_to_dds env png_dir dds_dir (st\<lparr>fs := (fs st)(png_dir \<mapsto> [])\<rparr>)
                 = (Inr 0, st')
           \<and> stdout st' = stdout st @ [''No PNG files found in '' @ png_dir]
           \<and> log st' = log st)
     \<and> fs (snd (convert_svgs_to_pngs env svg_dir png_dir st)) svg_dir \<noteq> None
     \<and> fs (snd (convert_svgs_to_pngs env svg_dir png_dir st)) png_dir \<noteq> None"
proof -
  from assms have g: "glob (fs st) png_dir ''.png'' = []" by (simp add: glob_def)
  have g': "glob (fs (st\<lparr>fs := (fs st)(png_dir \<mapsto> [])\<rparr>)) png_dir ''.png'' = []"
    by (simp add: glob_def)
  have a: "\<exists>st'. convert_pngs_to_dds env png_dir dds_dir st = (Inr 0, st')
           \<and> stdout st' = stdout st @ [''No PNG files found in '' @ png_dir]
           \<and> log st' = log st
           \<and> (png_dir \<noteq> dds_dir \<longrightarrow> fs st' png_dir = None)"
    using assms by (simp add: convert_pngs_to_dds_empty [OF g] mkdir_fs)
  have b: "\<exists>st'. convert_pngs_to_dds env png_dir dds_dir (st\<lparr>fs := (fs st)(png_dir \<mapsto> [])\<rparr>)
                 = (Inr 0, st')
           \<and> stdout st' = stdout st @ [''No PNG files found in '' @ png_dir]
           \<and> log st' = log st"
    by (simp add: convert_pngs_to_dds_empty [OF g'])
  let ?st0 = "mkdir png_dir (mkdir svg_dir st)"
  have d0: "fs ?st0 svg_dir \<noteq> None" "fs ?st0 png_dir \<noteq> None"
    by (simp_all add: mkdir_keeps)
  have c: "fs (snd (convert_svgs_to_pngs env svg_dir png_dir st)) d \<noteq> None"
    if "fs ?st0 d \<noteq> None" for d
  proof (cases "glob (fs st) svg_dir ''.svg'' = []")
    case True
    with that show ?thesis by (simp add: convert_svgs_to_pngs_empty [OF True])
  next
    case False
    from svg_loop_dir [OF surjective_pairing,
        of env svg_dir png_dir "glob (fs st) svg_dir ''.svg''" 0 0 ?st0 d] that
    show ?thesis by (simp add: convert_svgs_to_pngs_loop [OF False])
  qed
  from a b c [OF d0(1)] c [OF d0(2)] show ?thesis by blast
qed

theorem missing_raster_directory_is_empty_input_witness:
  "fs (st_of [(''dds'', [(''old.dds'', File [5] 0)])]) ''pngs'' = None
   \<and> fst (convert_pngs_to_dds tool_ok ''pngs'' ''dds''
        (st_of [(''dds'', [(''old.dds'', File [5] 0)])])) = Inr 0
   \<and> fs (snd (convert_pngs_to_dds tool_ok ''pngs'' ''dds''
        (st_of [(''dds'', [(''old.dds'', File [5] 0)])]))) ''pngs'' = None"
proof -
  let ?S = "st_of [(''dds'', [(''old.dds'', File [5] 0)])]"
  have h: "fs ?S ''pngs'' = None" by (simp add: st_of_def)
  from missing_raster_directory_is_empty_input [OF h, of tool_ok "''dds''" "''svg''"]
  obtain st' where "convert_pngs_to_dds tool_ok ''pngs'' ''dds'' ?S = (Inr 0, st')"
    "''pngs'' \<noteq> ''dds'' \<longrightarrow> fs st' ''pngs'' = None"
    by blast
  with h show ?thesis by simp
qed

section \<open>What the deployment stage copies\<close>

text \<open>
  Claim C2, amended. \<open>copy_to_mod_folder\<close> copies the entries of the
  compressed-output directory whose names match \<open>*.dds\<close>, and only those; it matches
  nothing against the raster directory. When it returns, the count is the number of
  those names, each of them is deployed, and no other path of the filesystem has
  changed. It does return, with every copy in place, when the destination is another
  directory than the source, every matching entry is a regular file and no matching
  name is a subdirectory of the destination.
\<close>

theorem every_dds_entry_is_copied:
  "(copy_to_mod_folder png_dir dds_dir mod_dir st = (Inr c, st') \<longrightarrow>
      c = length (glob (fs st) dds_dir ''.dds'')
      \<and> (\<forall>n \<in> set (glob (fs st) dds_dir ''.dds'').
            deployed (fs st) (fs st') dds_dir mod_dir n)
      \<and> (\<forall>q. q \<notin> (\<lambda>n. (mod_dir, n)) ` set (glob (fs st) dds_dir ''.dds'')
             \<longrightarrow> lookup (fs st') q = lookup (fs st) q))
   \<and> (dds_dir \<noteq> mod_dir
        \<and> (\<forall>n \<in> set (glob (fs st) dds_dir ''.dds'').
              (\<exists>b m. lookup (fs st) (dds_dir, n) = Some (File b m))
              \<and> \<not> is_dir (fs st) (mod_dir, n))
      \<longrightarrow> (\<exists>st2. copy_to_mod_folder png_dir dds_dir mod_dir st
                    = (Inr (length (glob (fs st) dds_dir ''.dds'')), st2)
               \<and> (\<forall>n \<in> set (glob (fs st) dds_dir ''.dds'').
                     lookup (fs st2) (mod_dir, n) = lookup (fs st) (dds_dir, n))))"
proof (intro conjI impI)
  let ?files = "glob (fs st) dds_dir ''.dds''"
  assume run: "copy_to_mod_folder png_dir dds_dir mod_dir st = (Inr c, st')"
  from stage3_effect [OF run] obtain k where
    k: "case (Inr c :: exn + nat) of Inr c' \<Rightarrow> k = length ?files \<and> c' = k
          | Inl e \<Rightarrow> k < length ?files"
      "\<forall>n \<in> set (take k ?files). deployed (fs st) (fs st') dds_dir mod_dir n"
      "\<forall>q. q \<notin> (\<lambda>n. (mod_dir, n)) ` set (take k ?files)
            \<longrightarrow> lookup (fs st') q = lookup (fs st) q"
    by blast
  from k(1) have kk: "k = length ?files" and ck: "c = k" by simp_all
  from kk have tk: "take k ?files = ?files" by simp
  from ck kk show "c = length ?files" by simp
  from k(2) show "\<forall>n \<in> set ?files. deployed (fs st) (fs st') dds_dir mod_dir n"
    unfolding tk .
  from k(3) show "\<forall>q. q \<notin> (\<lambda>n. (mod_dir, n)) ` set ?files
             \<longrightarrow> lookup (fs st') q = lookup (fs st) q"
    unfolding tk .
next
  let ?files = "glob (fs st) dds_dir ''.dds''"
  let ?st0 = "print ([char_of (10::nat)] @ ''Copying files to mod folder: '' @ mod_dir)
                (mkdir mod_dir st)"
  assume hyp: "dds_dir \<noteq> mod_dir
        \<and> (\<forall>n \<in> set ?files.
              (\<exists>b m. lookup (fs st) (dds_dir, n) = Some (File b m))
              \<and> \<not> is_dir (fs st) (mod_dir, n))"
  then have ne: "dds_dir \<noteq> mod_dir" by blast
  have dir: "fs ?st0 mod_dir \<noteq> None" by simp
  from hyp have ok: "\<forall>n \<in> set ?files.
              (\<exists>b m. lookup (fs ?st0) (dds_dir, n) = Some (File b m))
              \<and> \<not> is_dir (fs ?st0) (mod_dir, n)"
    by (simp add: is_dir_def)
  from copy_loop_total [OF glob_distinct ne dir ok, of 0]
  obtain st2 where loop: "copy_loop dds_dir mod_dir ?files 0 ?st0 = (Inr (length ?files), st2)"
    by auto
  then have run: "copy_to_mod_folder png_dir dds_dir mod_dir st = (Inr (length ?files), st2)"
    by (simp add: copy_to_mod_folder_loop)
  from stage3_effect [OF run] obtain k where
    k: "case (Inr (length ?files) :: exn + nat) of Inr c' \<Rightarrow> k = length ?files \<and> c' = k
          | Inl e \<Rightarrow> k < length ?files"
      "\<forall>n \<in> set (take k ?files). deployed (fs st) (fs st2) dds_dir mod_dir n"
    by blast
  from k(1) have kk: "k = length ?files" unfolding sum.case by blast
  then have tk: "take k ?files = ?files" by simp
  have "lookup (fs st2) (mod_dir, n) = lookup (fs st) (dds_dir, n)" if "n \<in> set ?files" for n
  proof -
    from k(2) that have dep: "deployed (fs st) (fs st2) dds_dir mod_dir n"
      unfolding tk by blast
    from hyp that obtain b m where src: "lookup (fs st) (dds_dir, n) = Some (File b m)"
      and nd: "\<not> is_dir (fs st) (mod_dir, n)" by blast
    from deployedD [OF dep] obtain b' m' where
      "lookup (fs st) (dds_dir, n) = Some (File b' m')"
      "\<not> is_dir (fs st) (mod_dir, n) \<longrightarrow> lookup (fs st2) (mod_dir, n) = Some (File b' m')"
      by blast
    with src nd show ?thesis by simp
  qed
  with run show "\<exists>st2. copy_to_mod_folder png_dir dds_dir mod_dir st
                    = (Inr (length ?files), st2)
               \<and> (\<forall>n \<in> set ?files.
                     lookup (fs st2) (mod_dir, n) = lookup (fs st) (dds_dir, n))"
    by blast
qed

theorem every_dds_entry_is_copied_witness:
  "fst (copy_to_mod_folder ''pngs'' ''dds'' ''mod''
        (st_of [(''dds'', [(''a.dds'', File [9] 0), (''b.dds'', File [7] 1)]),
                (''mod'', [(''a.dds'', File [0] 5)])])) = Inr 2
   \<and> lookup (fs (snd (copy_to_mod_folder ''pngs'' ''dds'' ''mod''
        (st_of [(''dds'', [(''a.dds'', File [9] 0), (''b.dds'', File [7] 1)]),
                (''mod'', [(''a.dds'', File [0] 5)])])))) (''mod'', ''a.dds'')
      = Some (File [9] 0)"
proof -
  let ?S = "st_of [(''dds'', [(''a.dds'', File [9] 0), (''b.dds'', File [7] 1)]),
                (''mod'', [(''a.dds'', File [0] 5)])]"
  have g: "glob (fs ?S) ''dds'' ''.dds'' = [''a.dds'', ''b.dds'']" by code_simp
  have h: "''dds'' \<noteq> ''mod''
        \<and> (\<forall>n \<in> set (glob (fs ?S) ''dds'' ''.dds'').
              (\<exists>b m. lookup (fs ?S) (''dds'', n) = Some (File b m))
              \<and> \<not> is_dir (fs ?S) (''mod'', n))"
    unfolding g by (simp add: st_of_def lookup_def is_dir_def)
  have src: "lookup (fs ?S) (''dds'', ''a.dds'') = Some (File [9] 0)"
    by (simp add: st_of_def lookup_def)
  from every_dds_entry_is_copied
    [where png_dir = "''pngs''" and dds_dir = "''dds''" and mod_dir = "''mod''" and st = ?S,
     THEN conjunct2, rule_format, OF h]
  obtain st2 where "copy_to_mod_folder ''pngs'' ''dds'' ''mod'' ?S
                      = (Inr (length (glob (fs ?S) ''dds'' ''.dds'')), st2)"
    "\<forall>n \<in> set (glob (fs ?S) ''dds'' ''.dds'').
        lookup (fs st2) (''mod'', n) = lookup (fs ?S) (''dds'', n)"
    by blast
  with g src show ?thesis by simp
qed

text \<open>
  As stated, with "no filtering" and "every file present", the claim fails: a file
  \<open>notes.txt\<close> beside \<open>a.dds\<close> is not copied, and the count is 1.
\<close>

theorem every_dds_entry_is_copied_counterexample:
  "exists (fs (st_of [(''dds'', [(''a.dds'', File [9] 0), (''notes.txt'', File [7] 0)])]))
          (''dds'', ''notes.txt'')
   \<and> fst (copy_to_mod_folder ''pngs'' ''dds'' ''mod''
        (st_of [(''dds'', [(''a.dds'', File [9] 0), (''notes.txt'', File [7] 0)])])) = Inr 1
   \<and> \<not> exists (fs (snd (copy_to_mod_folder ''pngs'' ''dds'' ''mod''
        (st_of [(''dds'', [(''a.dds'', File [9] 0), (''notes.txt'', File [7] 0)])]))))
          (''mod'', ''notes.txt'')"
  by code_simp

section \<open>Deployed copies are identical\<close>

text \<open>
  Claim C7. For every file that \<open>copy_to_mod_folder\<close> reports as copied (its
  \<open>[OK]\<close> line is in the text the run printed), the source was a regular file and is
  unchanged, and the destination holds a regular file with the same content and
  metadata, whatever file was there before; had the destination name been a
  subdirectory, the copy is inside it. When the stage returns, every \<open>*.dds\<close> name
  has been reported so.
\<close>

theorem deployed_copy_is_identical:
  assumes "copy_to_mod_folder png_dir dds_dir mod_dir st = (r, st')"
  shows "(\<forall>n. ''  [OK] '' @ n @ '' (DDS)'' \<in> set (new_lines st st') \<longrightarrow>
           (\<exists>b m. lookup (fs st) (dds_dir, n) = Some (File b m)
              \<and> lookup (fs st') (dds_dir, n) = Some (File b m)
              \<and> (\<not> is_dir (fs st) (mod_dir, n)
                   \<longrightarrow> lookup (fs st') (mod_dir, n) = Some (File b m))
              \<and> (\<forall>inner. lookup (fs st) (mod_dir, n) = Some (Dir inner) \<longrightarrow>
                   (\<exists>inner'. lookup (fs st') (mod_dir, n) = Some (Dir inner')
                      \<and> map_of inner' n = Some (File b m)))))
     \<and> (\<forall>c. r = Inr c \<longrightarrow>
           (\<forall>n \<in> set (glob (fs st) dds_dir ''.dds'').
              ''  [OK] '' @ n @ '' (DDS)'' \<in> set (new_lines st st')))"
proof -
  let ?files = "glob (fs st) dds_dir ''.dds''"
  from stage3_effect [OF assms] obtain k where
    k: "new_lines st st' =
         ([char_of (10::nat)] @ ''Copying files to mod folder: '' @ mod_dir)
         # map (\<lambda>n. ''  [OK] '' @ n @ '' (DDS)'') (take k ?files)"
      "case r of Inr c' \<Rightarrow> k = length ?files \<and> c' = k | Inl e \<Rightarrow> k < length ?files"
      "\<forall>n \<in> set (take k ?files). deployed (fs st) (fs st') dds_dir mod_dir n"
    by blast
  have copied: "n \<in> set (take k ?files)"
    if "''  [OK] '' @ n @ '' (DDS)'' \<in> set (new_lines st st')" for n
    using that unfolding k(1) by auto
  have "deployed (fs st) (fs st') dds_dir mod_dir n"
    if "''  [OK] '' @ n @ '' (DDS)'' \<in> set (new_lines st st')" for n
    using copied [OF that] k(3) by blast
  then have first: "\<forall>n. ''  [OK] '' @ n @ '' (DDS)'' \<in> set (new_lines st st') \<longrightarrow>
           (\<exists>b m. lookup (fs st) (dds_dir, n) = Some (File b m)
              \<and> lookup (fs st') (dds_dir, n) = Some (File b m)
              \<and> (\<not> is_dir (fs st) (mod_dir, n)
                   \<longrightarrow> lookup (fs st') (mod_dir, n) = Some (File b m))
              \<and> (\<forall>inner. lookup (fs st) (mod_dir, n) = Some (Dir inner) \<longrightarrow>
                   (\<exists>inner'. lookup (fs st') (mod_dir, n) = Some (Dir inner')
                      \<and> map_of inner' n = Some (File b m))))"
    using deployedD by blast
  have second: "\<forall>c. r = Inr c \<longrightarrow>
           (\<forall>n \<in> set ?files. ''  [OK] '' @ n @ '' (DDS)'' \<in> set (new_lines st st'))"
    using k(2) unfolding k(1) by auto
  from first second show ?thesis by blast
qed

theorem deployed_copy_is_identical_witness:
  "''  [OK] a.dds (DDS)'' \<in> set (new_lines
        (st_of [(''dds'', [(''a.dds'', File [9] 0)]), (''mod'', [(''a.dds'', File [0] 5)])])
        (snd (copy_to_mod_folder ''pngs'' ''dds'' ''mod''
           (st_of [(''dds'', [(''a.dds'', File [9] 0)]), (''mod'', [(''a.dds'', File [0] 5)])]))))
   \<and> \<not> is_dir (fs (st_of [(''dds'', [(''a.dds'', File [9] 0)]),
                          (''mod'', [(''a.dds'', File [0] 5)])])) (''mod'', ''a.dds'')
   \<and> lookup (fs (snd (copy_to_mod_folder ''pngs'' ''dds'' ''mod''
        (st_of [(''dds'', [(''a.dds'', File [9] 0)]), (''mod'', [(''a.dds'', File [0] 5)])]))))
        (''mod'', ''a.dds'') = Some (File [9] 0)"
proof -
  let ?S = "st_of [(''dds'', [(''a.dds'', File [9] 0)]), (''mod'', [(''a.dds'', File [0] 5)])]"
  let ?S' = "snd (copy_to_mod_folder ''pngs'' ''dds'' ''mod'' ?S)"
  have line: "''  [OK] '' @ ''a.dds'' @ '' (DDS)'' \<in> set (new_lines ?S ?S')" by code_simp
  have nd: "\<not> is_dir (fs ?S) (''mod'', ''a.dds'')" by code_simp
  have src: "lookup (fs ?S) (''dds'', ''a.dds'') = Some (File [9] 0)" by code_simp
  from deployed_copy_is_identical
    [where png_dir = "''pngs''" and dds_dir = "''dds''" and mod_dir = "''mod''" and st = ?S,
     OF surjective_pairing, THEN conjunct1, rule_format, OF line]
  obtain b m where "lookup (fs ?S) (''dds'', ''a.dds'') = Some (File b m)"
    "\<not> is_dir (fs ?S) (''mod'', ''a.dds'')
       \<longrightarrow> lookup (fs ?S') (''mod'', ''a.dds'') = Some (File b m)"
    by blast
  with src nd line show ?thesis by simp
qed

section \<open>The raster directory is not read\<close>

text \<open>
  Claim C9. \<open>copy_to_mod_folder\<close> gives the same result and the same state for any
  two raster-directory arguments. When the raster directory is neither the source nor
  the destination, replacing its contents by anything (or removing it) changes neither
  the result nor what the run does to the rest of the state: the run commutes with the
  replacement, so nothing of the raster directory is read or copied.
\<close>

theorem raster_directory_is_not_read:
  "copy_to_mod_folder png_dir dds_dir mod_dir st
     = copy_to_mod_folder png_dir' dds_dir mod_dir st
   \<and> (png_dir \<noteq> dds_dir \<and> png_dir \<noteq> mod_dir \<longrightarrow>
        copy_to_mod_folder png_dir dds_dir mod_dir (st\<lparr>fs := (fs st)(png_dir := x)\<rparr>)
          = (fst (copy_to_mod_folder png_dir dds_dir mod_dir st),
             (snd (copy_to_mod_folder png_dir dds_dir mod_dir st))
               \<lparr>fs := (fs (snd (copy_to_mod_folder png_dir dds_dir mod_dir st)))
                        (png_dir := x)\<rparr>))"
proof (intro conjI impI)
  show "copy_to_mod_folder png_dir dds_dir mod_dir st
          = copy_to_mod_folder png_dir' dds_dir mod_dir st"
    by (simp add: copy_to_mod_folder_def)
next
  assume "png_dir \<noteq> dds_dir \<and> png_dir \<noteq> mod_dir"
  then have ne: "dds_dir \<noteq> png_dir" "mod_dir \<noteq> png_dir" by auto
  let ?head = "[char_of (10::nat)] @ ''Copying files to mod folder: '' @ mod_dir"
  let ?st0 = "print ?head (mkdir mod_dir st)"
  let ?stx = "st\<lparr>fs := (fs st)(png_dir := x)\<rparr>"
  have g: "glob (fs ?stx) dds_dir ''.dds'' = glob (fs st) dds_dir ''.dds''"
    using ne by (simp add: glob_upd_other)
  have s0: "print ?head (mkdir mod_dir ?stx) = ?st0\<lparr>fs := (fs ?st0)(png_dir := x)\<rparr>"
    using ne by (simp add: mkdir_frame print_frame)
  obtain r st' where loop:
    "copy_loop dds_dir mod_dir (glob (fs st) dds_dir ''.dds'') 0 ?st0 = (r, st')"
    by (cases "copy_loop dds_dir mod_dir (glob (fs st) dds_dir ''.dds'') 0 ?st0")
  from copy_loop_frame [OF ne loop, of x] loop g s0
  show "copy_to_mod_folder png_dir dds_dir mod_dir ?stx
          = (fst (copy_to_mod_folder png_dir dds_dir mod_dir st),
             (snd (copy_to_mod_folder png_dir dds_dir mod_dir st))
               \<lparr>fs := (fs (snd (copy_to_mod_folder png_dir dds_dir mod_dir st)))
                        (png_dir := x)\<rparr>)"
    by (simp add: copy_to_mod_folder_loop)
qed

theorem raster_directory_is_not_read_witness:
  "''pngs'' \<noteq> ''dds'' \<and> ''pngs'' \<noteq> ''mod''
   \<and> fst (copy_to_mod_folder ''pngs'' ''dds'' ''mod''
        ((st_of [(''dds'', [(''a.dds'', File [9] 0)])])
           \<lparr>fs := (fs (st_of [(''dds'', [(''a.dds'', File [9] 0)])]))
                    (''pngs'' := Some [(''a.png'', File [4] 0)])\<rparr>))
     = fst (copy_to_mod_folder ''pngs'' ''dds'' ''mod''
              (st_of [(''dds'', [(''a.dds'', File [9] 0)])]))"
proof -
  have h: "''pngs'' \<noteq> ''dds'' \<and> ''pngs'' \<noteq> ''mod''" by simp
  from raster_directory_is_not_read
    [where png_dir = "''pngs''" and dds_dir = "''dds''" and mod_dir = "''mod''"
       and st = "st_of [(''dds'', [(''a.dds'', File [9] 0)])]"
       and x = "Some [(''a.png'', File [4] 0)]",
     THEN conjunct2, rule_format, OF h] h
  show ?thesis by simp
qed

section \<open>What the orchestrator absorbs\<close>

text \<open>
  Claim C1, amended. Take the filesystem calls of the script itself as they are
  modelled: at the path of a directory that the script creates or lists there is no
  regular file, so that \<open>mkdir\<close> and \<open>glob\<close> succeed; no access is denied; no
  interrupt arrives. Then, whatever the tools do (return any code, be missing, make
  the launch raise any other exception), stages 1 and 2 return a count and raise
  nothing. Every launch they record is a call of the tool on the command of a listed
  file, and its outcome is reported as printed text: the \<open>[OK]\<close> line, the
  \<open>[ERR]\<close> line with the captured error text or the exception, or the two lines
  that say the binary was not found (\<open>report1\<close>, \<open>report2\<close>) are among the lines
  the run printed. Stage 3 has no handler, and \<open>main\<close> has none around the stages.
  So \<open>main\<close> returns normally, with every launch of stages 1 and 2 reported in its
  output, when the copies of stage 3 succeed, which they do when the destination is
  not the compressed-output directory and no \<open>*.dds\<close> name is a subdirectory of
  either directory.
\<close>

theorem tool_failures_are_absorbed:
  "(\<exists>n st'. convert_svgs_to_pngs env svg_dir png_dir st = (Inr n, st')
      \<and> (\<forall>i \<in> set (new_calls st st').
            (\<exists>h f. env h f (argv i) = (result i, written i))
            \<and> (\<exists>name \<in> set (glob (fs st) svg_dir ''.svg'').
                  argv i = magick_cmd (svg_dir, name) (png_dir, stem name @ ''.png'')
                  \<and> set (report1 name (result i)) \<subseteq> set (new_lines st st'))))
   \<and> (\<exists>n st'. convert_pngs_to_dds env png_dir dds_dir st = (Inr n, st')
      \<and> (\<forall>i \<in> set (new_calls st st').
            (\<exists>h f. env h f (argv i) = (result i, written i))
            \<and> (\<exists>name \<in> set (glob (fs st) png_dir ''.png'').
                  argv i = texconv_cmd dds_dir (png_dir, name)
                  \<and> set (report2 name (result i)) \<subseteq> set (new_lines st st'))))
   \<and> (MOD_TEXTURES_DIR \<noteq> joinpath script_dir ''dds''
        \<and> (\<forall>n. ends_with ''.dds'' n \<longrightarrow>
               \<not> is_dir (fs st) (joinpath script_dir ''dds'', n)
               \<and> \<not> is_dir (fs st) (MOD_TEXTURES_DIR, n))
      \<longrightarrow> (\<exists>st'. main env script_dir MOD_TEXTURES_DIR st = (Inr (), st')
             \<and> (\<forall>i \<in> set (new_calls st st').
                   (\<exists>h f. env h f (argv i) = (result i, written i))
                   \<and> (\<exists>name.
                        argv i = magick_cmd (joinpath script_dir ''svg'', name)
                                   (joinpath script_dir ''pngs'', stem name @ ''.png'')
                        \<and> set (report1 name (result i)) \<subseteq> set (new_lines st st')
                        \<or> argv i = texconv_cmd (joinpath script_dir ''dds'')
                                      (joinpath script_dir ''pngs'', name)
                        \<and> set (report2 name (result i)) \<subseteq> set (new_lines st st')))))"
proof (intro conjI impI)
  from stage1_reports [of env svg_dir png_dir st]
  show "\<exists>n st'. convert_svgs_to_pngs env svg_dir png_dir st = (Inr n, st')
      \<and> (\<forall>i \<in> set (new_calls st st').
            (\<exists>h f. env h f (argv i) = (result i, written i))
            \<and> (\<exists>name \<in> set (glob (fs st) svg_dir ''.svg'').
                  argv i = magick_cmd (svg_dir, name) (png_dir, stem name @ ''.png'')
                  \<and> set (report1 name (result i)) \<subseteq> set (new_lines st st')))"
    by blast
  from stage2_reports [of env png_dir dds_dir st]
  show "\<exists>n st'. convert_pngs_to_dds env png_dir dds_dir st = (Inr n, st')
      \<and> (\<forall>i \<in> set (new_calls st st').
            (\<exists>h f. env h f (argv i) = (result i, written i))
            \<and> (\<exists>name \<in> set (glob (fs st) png_dir ''.png'').
                  argv i = texconv_cmd dds_dir (png_dir, name)
                  \<and> set (report2 name (result i)) \<subseteq> set (new_lines st st')))"
    by blast
next
  let ?svg = "joinpath script_dir ''svg''"
  let ?png = "joinpath script_dir ''pngs''"
  let ?dds = "joinpath script_dir ''dds''"
  let ?nl = "[char_of (10::nat)]"
  assume hyp: "MOD_TEXTURES_DIR \<noteq> ?dds
        \<and> (\<forall>n. ends_with ''.dds'' n \<longrightarrow>
               \<not> is_dir (fs st) (?dds, n) \<and> \<not> is_dir (fs st) (MOD_TEXTURES_DIR, n))"
  let ?s0 = "print (replicate 40 CHR ''-'')
              (print (?nl @ ''[1/3] SVG -> PNG conversion'')
                (print (replicate 60 CHR ''='')
                  (print ''Icon DDS Converter & Deployer''
                    (print (replicate 60 CHR ''='') st))))"
  from stage1_reports [of env ?svg ?png ?s0] obtain n1 st1 where
    s1: "convert_svgs_to_pngs env ?svg ?png ?s0 = (Inr n1, st1)"
    and g1: "log st1 = log ?s0 @ new_calls ?s0 st1"
    and o1: "stdout st1 = stdout ?s0 @ new_lines ?s0 st1"
    and d1: "\<forall>q. is_dir (fs st1) q = is_dir (fs ?s0) q"
    and r1: "\<forall>i \<in> set (new_calls ?s0 st1).
            (\<exists>h f. env h f (argv i) = (result i, written i))
            \<and> (\<exists>name \<in> set (glob (fs ?s0) ?svg ''.svg'').
                  argv i = magick_cmd (?svg, name) (?png, stem name @ ''.png'')
                  \<and> set (report1 name (result i)) \<subseteq> set (new_lines ?s0 st1))"
    by blast
  let ?s1 = "print (replicate 40 CHR ''-'') (print (?nl @ ''[2/3] PNG -> DDS conversion'') st1)"
  from stage2_reports [of env ?png ?dds ?s1] obtain n2 st2 where
    s2: "convert_pngs_to_dds env ?png ?dds ?s1 = (Inr n2, st2)"
    and g2: "log st2 = log ?s1 @ new_calls ?s1 st2"
    and o2: "stdout st2 = stdout ?s1 @ new_lines ?s1 st2"
    and d2: "\<forall>q. is_dir (fs st2) q = is_dir (fs ?s1) q"
    and r2: "\<forall>i \<in> set (new_calls ?s1 st2).
            (\<exists>h f. env h f (argv i) = (result i, written i))
            \<and> (\<exists>name \<in> set (glob (fs ?s1) ?png ''.png'').
                  argv i = texconv_cmd ?dds (?png, name)
                  \<and> set (report2 name (result i)) \<subseteq> set (new_lines ?s1 st2))"
    by blast
  let ?s2 = "print (replicate 40 CHR ''-'') (print (?nl @ ''[3/3] Deploy to mod folder'') st2)"
  have same: "is_dir (fs ?s2) q = is_dir (fs st) q" for q
  proof -
    from d2 have "is_dir (fs st2) q = is_dir (fs ?s1) q" by blast
    moreover from d1 have "is_dir (fs st1) q = is_dir (fs ?s0) q" by blast
    ultimately show ?thesis by simp
  qed
  from hyp have ne: "?dds \<noteq> MOD_TEXTURES_DIR" by blast
  from hyp have nd: "\<forall>n. ends_with ''.dds'' n \<longrightarrow>
             \<not> is_dir (fs ?s2) (?dds, n) \<and> \<not> is_dir (fs ?s2) (MOD_TEXTURES_DIR, n)"
    unfolding same by blast
  from stage3_returns [OF ne nd, of ?png] obtain n3 st3 where
    s3: "copy_to_mod_folder ?png ?dds MOD_TEXTURES_DIR ?s2 = (Inr n3, st3)" by blast
  from stage3_output [OF s3] obtain l3 where
    g3: "log st3 = log ?s2" and o3: "stdout st3 = stdout ?s2 @ l3" by blast
  define tail where "tail = [?nl @ replicate 60 CHR ''='',
      ''Done! Converted '' @ str_nat n1 @ '' SVGs, '' @ str_nat n2
        @ '' DDS files, copied '' @ str_nat n3 @ '' total files.'',
      replicate 60 CHR ''='']"
  define st' where "st' = prints tail st3"
  from s1 s2 s3 have m: "main env script_dir MOD_TEXTURES_DIR st = (Inr (), st')"
    by (simp add: main_def Let_def st'_def tail_def print_prints prints_prints)
  define N1 where "N1 = new_calls ?s0 st1"
  define N2 where "N2 = new_calls ?s1 st2"
  define L1 where "L1 = new_lines ?s0 st1"
  define L2 where "L2 = new_lines ?s1 st2"
  have lg: "log st' = log st @ (N1 @ N2)"
    using g1 g2 g3 by (simp add: st'_def N1_def N2_def)
  then have nc: "new_calls st st' = N1 @ N2" by (rule new_calls_append)
  have "\<exists>pre mid post. stdout st' = stdout st @ (pre @ L1 @ mid @ L2 @ post)"
  proof -
    have "stdout st' = stdout st @
        ([replicate 60 CHR ''='', ''Icon DDS Converter & Deployer'', replicate 60 CHR ''='',
          ?nl @ ''[1/3] SVG -> PNG conversion'', replicate 40 CHR ''-'']
         @ L1 @ [?nl @ ''[2/3] PNG -> DDS conversion'', replicate 40 CHR ''-'']
         @ L2 @ ([?nl @ ''[3/3] Deploy to mod folder'', replicate 40 CHR ''-''] @ l3 @ tail))"
      using o1 o2 o3 by (simp add: st'_def L1_def L2_def)
    then show ?thesis by blast
  qed
  then obtain pre mid post where
    out: "stdout st' = stdout st @ (pre @ L1 @ mid @ L2 @ post)" by blast
  then have nl: "new_lines st st' = pre @ L1 @ mid @ L2 @ post" by (rule new_lines_append)
  have rep: "\<forall>i \<in> set (new_calls st st').
                   (\<exists>h f. env h f (argv i) = (result i, written i))
                   \<and> (\<exists>name.
                        argv i = magick_cmd (?svg, name) (?png, stem name @ ''.png'')
                        \<and> set (report1 name (result i)) \<subseteq> set (new_lines st st')
                        \<or> argv i = texconv_cmd ?dds (?png, name)
                        \<and> set (report2 name (result i)) \<subseteq> set (new_lines st st'))"
  proof
    fix i assume "i \<in> set (new_calls st st')"
    then consider "i \<in> set N1" | "i \<in> set N2" unfolding nc by auto
    then show "(\<exists>h f. env h f (argv i) = (result i, written i))
                   \<and> (\<exists>name.
                        argv i = magick_cmd (?svg, name) (?png, stem name @ ''.png'')
                        \<and> set (report1 name (result i)) \<subseteq> set (new_lines st st')
                        \<or> argv i = texconv_cmd ?dds (?png, name)
                        \<and> set (report2 name (result i)) \<subseteq> set (new_lines st st'))"
    proof cases
      case 1
      with r1 obtain h f name where
        "env h f (argv i) = (result i, written i)"
        "argv i = magick_cmd (?svg, name) (?png, stem name @ ''.png'')"
        "set (report1 name (result i)) \<subseteq> set L1"
        unfolding N1_def L1_def by blast
      then show ?thesis unfolding nl by (intro conjI exI [of _ name] disjI1) auto
    next
      case 2
      with r2 obtain h f name where
        "env h f (argv i) = (result i, written i)"
        "argv i = texconv_cmd ?dds (?png, name)"
        "set (report2 name (result i)) \<subseteq> set L2"
        unfolding N2_def L2_def by blast
      then show ?thesis unfolding nl by (intro conjI exI [of _ name] disjI2) auto
    qed
  qed
  from m rep show "\<exists>st'. main env script_dir MOD_TEXTURES_DIR st = (Inr (), st')
             \<and> (\<forall>i \<in> set (new_calls st st').
                   (\<exists>h f. env h f (argv i) = (result i, written i))
                   \<and> (\<exists>name.
                        argv i = magick_cmd (?svg, name) (?png, stem name @ ''.png'')
                        \<and> set (report1 name (result i)) \<subseteq> set (new_lines st st')
                        \<or> argv i = texconv_cmd ?dds (?png, name)
                        \<and> set (report2 name (result i)) \<subseteq> set (new_lines st st')))"
    by blast
qed

theorem tool_failures_are_absorbed_witness:
  "''mod'' \<noteq> joinpath ''icons'' ''dds''
   \<and> fst (main tool_failing ''icons'' ''mod''
        (st_of [(''icons/svg'', [(''x.svg'', File [1] 0)]),
                (''icons/pngs'', [(''y.png'', File [2] 0)])])) = Inr ()
   \<and> map result (new_calls
        (st_of [(''icons/svg'', [(''x.svg'', File [1] 0)]),
                (''icons/pngs'', [(''y.png'', File [2] 0)])])
        (snd (main tool_failing ''icons'' ''mod''
           (st_of [(''icons/svg'', [(''x.svg'', File [1] 0)]),
                   (''icons/pngs'', [(''y.png'', File [2] 0)])]))))
       = [Completed 1 ''bad input'', Completed 1 ''bad input'']
   \<and> filter (\<lambda>l. take 7 l = ''  [ERR]'')
        (new_lines
           (st_of [(''icons/svg'', [(''x.svg'', File [1] 0)]),
                   (''icons/pngs'', [(''y.png'', File [2] 0)])])
           (snd (main tool_failing ''icons'' ''mod''
              (st_of [(''icons/svg'', [(''x.svg'', File [1] 0)]),
                      (''icons/pngs'', [(''y.png'', File [2] 0)])]))))
       = report1 ''x.svg'' (Completed 1 ''bad input'')
         @ report2 ''y.png'' (Completed 1 ''bad input'')"
proof -
  let ?S = "st_of [(''icons/svg'', [(''x.svg'', File [1] 0)]),
                   (''icons/pngs'', [(''y.png'', File [2] 0)])]"
  let ?S' = "snd (main tool_failing ''icons'' ''mod'' ?S)"
  have h: "''mod'' \<noteq> joinpath ''icons'' ''dds''
        \<and> (\<forall>n. ends_with ''.dds'' n \<longrightarrow>
               \<not> is_dir (fs ?S) (joinpath ''icons'' ''dds'', n)
               \<and> \<not> is_dir (fs ?S) (''mod'', n))"
    by (simp add: joinpath_def st_of_def is_dir_def lookup_def)
  from tool_failures_are_absorbed
    [where env = tool_failing and script_dir = "''icons''" and MOD_TEXTURES_DIR = "''mod''"
       and st = ?S, THEN conjunct2, THEN conjunct2, rule_format, OF h]
  obtain st' where m: "main tool_failing ''icons'' ''mod'' ?S = (Inr (), st')"
    by blast
  have r: "map result (new_calls ?S ?S') = [Completed 1 ''bad input'', Completed 1 ''bad input'']"
    by code_simp
  have l: "filter (\<lambda>l. take 7 l = ''  [ERR]'') (new_lines ?S ?S')
             = report1 ''x.svg'' (Completed 1 ''bad input'')
               @ report2 ''y.png'' (Completed 1 ''bad input'')"
    by code_simp
  from m have "fst (main tool_failing ''icons'' ''mod'' ?S) = Inr ()" by simp
  with h r l show ?thesis by (intro conjI) blast+
qed

text \<open>
  As stated, for every filesystem state, the claim fails: with a subdirectory named
  \<open>x.dds\<close> in the compressed-output directory, \<open>copy2\<close> raises in stage 3 and the
  exception leaves \<open>main\<close>.
\<close>

theorem tool_failures_are_absorbed_counterexample:
  "fst (main tool_missing ''icons'' ''mod''
          (st_of [(''icons/dds'', [(''x.dds'', Dir [])])])) = Inl IsADirectoryError"
  by code_simp

section \<open>Empty input\<close>

text \<open>
  Claim C8. When the source directory holds no \<open>*.svg\<close> name, stage 1 returns 0,
  prints \<open>No SVG files found\<close>, runs no tool and leaves every file of every directory
  as it was, so the raster directory gains no content. When the raster directory holds
  no \<open>*.png\<close> name, stage 2 returns 0 and prints \<open>No PNG files found in\<close> followed
  by that directory, runs no tool and changes no file. Neither raises.
\<close>

theorem empty_input_returns_zero:
  "(glob (fs st) svg_dir ''.svg'' = [] \<longrightarrow>
      (\<exists>st'. convert_svgs_to_pngs env svg_dir png_dir st = (Inr 0, st')
         \<and> stdout st' = stdout st @ [''No SVG files found'']
         \<and> log st' = log st
         \<and> (\<forall>p. lookup (fs st') p = lookup (fs st) p)))
   \<and> (glob (fs st) png_dir ''.png'' = [] \<longrightarrow>
      (\<exists>st'. convert_pngs_to_dds env png_dir dds_dir st = (Inr 0, st')
         \<and> stdout st' = stdout st @ [''No PNG files found in '' @ png_dir]
         \<and> log st' = log st
         \<and> (\<forall>p. lookup (fs st') p = lookup (fs st) p)))"
  by (simp add: convert_svgs_to_pngs_def convert_pngs_to_dds_def)

theorem empty_input_returns_zero_witness:
  "glob (fs (st_of [(''svg'', [(''readme.txt'', File [] 0)]), (''pngs'', [])])) ''svg'' ''.svg'' = []
   \<and> glob (fs (st_of [(''svg'', [(''readme.txt'', File [] 0)]), (''pngs'', [])])) ''pngs'' ''.png'' = []
   \<and> fst (convert_svgs_to_pngs tool_ok ''svg'' ''pngs''
             (st_of [(''svg'', [(''readme.txt'', File [] 0)]), (''pngs'', [])])) = Inr 0
   \<and> fst (convert_pngs_to_dds tool_ok ''pngs'' ''dds''
             (st_of [(''svg'', [(''readme.txt'', File [] 0)]), (''pngs'', [])])) = Inr 0"
  using empty_input_returns_zero
    [where st = "st_of [(''svg'', [(''readme.txt'', File [] 0)]), (''pngs'', [])]"
       and svg_dir = "''svg''" and png_dir = "''pngs''" and dds_dir = "''dds''"
       and env = tool_ok]
  by (auto simp add: glob_def st_of_def ends_with_def)

end
